theory Spec2Isabelle
  imports Complex_Main "HOL-Library.AList" "HOL-Library.Sublist" "HOL-Library.Multiset"
begin

section \<open>The in-memory TTL cache (backend/utils/cache_utils.py, class MemoryCache)\<close>

text \<open>
  Clock readings (\<^verbatim>\<open>time.time()\<close>) and expiration instants are Python floats. They are
  modelled as reals, with \<^verbatim>\<open>float('inf')\<close> as a separate constructor: the model is exact
  for the order comparisons the code makes between finite instants and abstracts from the
  rounding of the one addition \<^verbatim>\<open>time.time() + ttl\<close>.
\<close>

datatype expiry = At real | Never

text \<open>\<^verbatim>\<open>expiration > now\<close> and \<^verbatim>\<open>exp <= now\<close>, for a finite \<open>now\<close>.\<close>

fun expiry_gt :: "expiry \<Rightarrow> real \<Rightarrow> bool" where
  "expiry_gt (At t) now = (t > now)"
| "expiry_gt Never now = True"

fun expiry_le :: "expiry \<Rightarrow> real \<Rightarrow> bool" where
  "expiry_le (At t) now = (t \<le> now)"
| "expiry_le Never now = False"

text \<open>The order \<^verbatim>\<open><\<close> of two expiration instants, as \<^verbatim>\<open>min\<close> compares its keys.\<close>

fun expiry_less :: "expiry \<Rightarrow> expiry \<Rightarrow> bool" where
  "expiry_less (At a) (At b) = (a < b)"
| "expiry_less (At a) Never = True"
| "expiry_less Never e = False"

text \<open>
  \<^verbatim>\<open>self._cache: Dict[K, Tuple[V, float]]\<close>. A Python dict iterates in insertion order, and
  \<^verbatim>\<open>min\<close> returns the first minimal element of that order, so the dict is an association
  list: \<open>AList.update\<close> overwrites a present key in place and appends a new one at the
  end, \<open>AList.delete\<close> is \<^verbatim>\<open>del d[k]\<close>. The five counters of \<^verbatim>\<open>self.statistics\<close> are the
  fields \<open>hits\<close> .. \<open>stat_size\<close> (the entry \<^verbatim>\<open>"size"\<close>).
\<close>

type_synonym ('k, 'v) entry = "'k \<times> 'v \<times> expiry"

record ('k, 'v) MemoryCache =
  max_size :: int
  default_ttl :: int
  cache :: "('k, 'v) entry list"
  hits :: int
  misses :: int
  evictions :: int
  insertions :: int
  stat_size :: int

definition MemoryCache_init :: "int \<Rightarrow> int \<Rightarrow> ('k, 'v) MemoryCache" where
  "MemoryCache_init m ttl =
     \<lparr>max_size = m, default_ttl = ttl, cache = [],
      hits = 0, misses = 0, evictions = 0, insertions = 0, stat_size = 0\<rparr>"

definition keys_of :: "('k, 'v) entry list \<Rightarrow> 'k set" where
  "keys_of al = fst ` set al"

definition expiration_of :: "('k, 'v) entry \<Rightarrow> expiry" where
  "expiration_of e = snd (snd e)"

text \<open>\<^verbatim>\<open>_cleanup_expired\<close>: returns the number of removed items beside the new state.\<close>

definition cleanup_expired :: "('k, 'v) MemoryCache \<Rightarrow> real \<Rightarrow> ('k, 'v) MemoryCache \<times> int" where
  "cleanup_expired c now =
     (let expired_keys = map fst (filter (\<lambda>e. expiry_le (expiration_of e) now) (cache c));
          cache' = fold AList.delete expired_keys (cache c)
      in (c\<lparr>cache := cache',
            evictions := evictions c + int (length expired_keys),
            stat_size := int (length cache')\<rparr>,
          int (length expired_keys)))"

text \<open>
  \<^verbatim>\<open>min(self._cache.keys(), key=lambda k: self._cache[k][1])\<close>: the running best is
  replaced only by a strictly smaller key, so the first minimal entry wins.
\<close>

fun min_loop :: "('k, 'v) entry \<Rightarrow> ('k, 'v) entry list \<Rightarrow> ('k, 'v) entry" where
  "min_loop best [] = best"
| "min_loop best (e # es) =
     min_loop (if expiry_less (expiration_of e) (expiration_of best) then e else best) es"

definition evict_oldest :: "('k, 'v) MemoryCache \<Rightarrow> ('k, 'v) MemoryCache" where
  "evict_oldest c =
     (case cache c of
        [] \<Rightarrow> c
      | e # es \<Rightarrow>
          (let oldest_key = fst (min_loop e es);
               cache' = AList.delete oldest_key (cache c)
           in c\<lparr>cache := cache',
                evictions := evictions c + 1,
                stat_size := int (length cache')\<rparr>))"

text \<open>
  The expiration instant of \<^verbatim>\<open>put\<close>, the source's expression
  \<^verbatim>\<open>time.time() + (ttl if ttl is not None else self.default_ttl) if (ttl != 0) else float('inf')\<close>:
  a conditional expression whose test \<^verbatim>\<open>ttl != 0\<close> is on the argument \<open>ttl\<close> itself, and
  \<^verbatim>\<open>None != 0\<close> holds.
\<close>

definition expiration_for :: "int option \<Rightarrow> int \<Rightarrow> real \<Rightarrow> expiry" where
  "expiration_for ttl dflt now =
     (if ttl \<noteq> Some 0
      then At (now + real_of_int (case ttl of Some t \<Rightarrow> t | None \<Rightarrow> dflt))
      else Never)"

text \<open>
  \<^verbatim>\<open>put(key, value, ttl=None)\<close>. The clock is read twice, by \<^verbatim>\<open>_cleanup_expired\<close> (\<open>now1\<close>)
  and for the expiration instant (\<open>now2\<close>).
\<close>

definition put ::
  "('k, 'v) MemoryCache \<Rightarrow> 'k \<Rightarrow> 'v \<Rightarrow> int option \<Rightarrow> real \<Rightarrow> real \<Rightarrow> ('k, 'v) MemoryCache" where
  "put c key val ttl now1 now2 =
     (let c1 = fst (cleanup_expired c now1);
          c2 = (if int (length (cache c1)) \<ge> max_size c1 \<and> key \<notin> keys_of (cache c1)
                then evict_oldest c1 else c1);
          expiration = expiration_for ttl (default_ttl c2) now2;
          cache' = AList.update key (val, expiration) (cache c2)
      in c2\<lparr>cache := cache',
             insertions := (if key \<in> keys_of cache' then insertions c2 + 1 else insertions c2),
             stat_size := int (length cache')\<rparr>)"

text \<open>\<^verbatim>\<open>get(key)\<close> at clock reading \<open>now\<close>: the returned value (\<open>None\<close> for Python's None)
  and the new state.\<close>

definition get :: "('k, 'v) MemoryCache \<Rightarrow> 'k \<Rightarrow> real \<Rightarrow> 'v option \<times> ('k, 'v) MemoryCache" where
  "get c key now =
     (case map_of (cache c) key of
        Some (val, expiration) \<Rightarrow>
          if expiry_gt expiration now
          then (Some val, c\<lparr>hits := hits c + 1\<rparr>)
          else (let cache' = AList.delete key (cache c)
                in (None, c\<lparr>cache := cache', stat_size := int (length cache'),
                             misses := misses c + 1\<rparr>))
      | None \<Rightarrow> (None, c\<lparr>misses := misses c + 1\<rparr>))"

definition contains :: "('k, 'v) MemoryCache \<Rightarrow> 'k \<Rightarrow> real \<Rightarrow> bool" where
  "contains c key now =
     (case map_of (cache c) key of
        Some (val, expiration) \<Rightarrow> expiry_gt expiration now
      | None \<Rightarrow> False)"

definition remove :: "('k, 'v) MemoryCache \<Rightarrow> 'k \<Rightarrow> bool \<times> ('k, 'v) MemoryCache" where
  "remove c key =
     (if key \<in> keys_of (cache c)
      then (let cache' = AList.delete key (cache c)
            in (True, c\<lparr>cache := cache', stat_size := int (length cache')\<rparr>))
      else (False, c))"

definition clear :: "('k, 'v) MemoryCache \<Rightarrow> ('k, 'v) MemoryCache" where
  "clear c = c\<lparr>cache := [], stat_size := 0\<rparr>"

text \<open>A dict has each key once; every operation keeps it so.\<close>

definition wf_cache :: "('k, 'v) MemoryCache \<Rightarrow> bool" where
  "wf_cache c = distinct (map fst (cache c))"

section \<open>Strings\<close>

text \<open>
  A Python \<^verbatim>\<open>str\<close> is modelled as a \<open>string\<close>, each \<open>char\<close> standing for the code point of
  the same number (0 to 255). The helpers below are the \<^verbatim>\<open>str\<close> methods the code calls,
  restricted to that range.
\<close>

text \<open>\<^verbatim>\<open>str.isspace\<close> on one character: TAB to CR, FS to US, space, NEL and NBSP.\<close>

definition is_space :: "char \<Rightarrow> bool" where
  "is_space c =
     (let k = (of_char c :: nat)
      in (9 \<le> k \<and> k \<le> 13) \<or> (28 \<le> k \<and> k \<le> 32) \<or> k = 133 \<or> k = 160)"

text \<open>\<^verbatim>\<open>s.strip()\<close> and \<^verbatim>\<open>s.strip(chars)\<close>.\<close>

definition strip :: "string \<Rightarrow> string" where
  "strip s = rev (dropWhile is_space (rev (dropWhile is_space s)))"

definition strip_chars :: "string \<Rightarrow> string \<Rightarrow> string" where
  "strip_chars cs s =
     rev (dropWhile (\<lambda>c. c \<in> set cs) (rev (dropWhile (\<lambda>c. c \<in> set cs) s)))"

text \<open>\<^verbatim>\<open>s.lower()\<close>: the letters A to Z and the Latin-1 capitals are moved by 32.\<close>

definition lower_char :: "char \<Rightarrow> char" where
  "lower_char c =
     (let k = (of_char c :: nat)
      in if (65 \<le> k \<and> k \<le> 90) \<or> (192 \<le> k \<and> k \<le> 222 \<and> k \<noteq> 215)
         then char_of (k + 32) else c)"

definition lower :: "string \<Rightarrow> string" where
  "lower s = map lower_char s"

text \<open>
  \<^verbatim>\<open>s.splitlines()\<close>: a line ends at LF, CR, CR LF, VT, FF, FS, GS, RS or NEL; the line
  breaks are dropped and a final break opens no empty line.
\<close>

definition is_linebreak :: "char \<Rightarrow> bool" where
  "is_linebreak c =
     (let k = (of_char c :: nat) in (10 \<le> k \<and> k \<le> 13) \<or> (28 \<le> k \<and> k \<le> 30) \<or> k = 133)"

fun splitlines_from :: "string \<Rightarrow> string \<Rightarrow> string list" where
  "splitlines_from cur [] = (if cur = [] then [] else [cur])"
| "splitlines_from cur [c] = (if is_linebreak c then [cur] else [cur @ [c]])"
| "splitlines_from cur (c # d # cs) =
     (if c = CHR 0x0D \<and> d = CHR 0x0A then cur # splitlines_from [] cs
      else if is_linebreak c then cur # splitlines_from [] (d # cs)
      else splitlines_from (cur @ [c]) (d # cs))"

definition splitlines :: "string \<Rightarrow> string list" where
  "splitlines s = splitlines_from [] s"

text \<open>
  \<^verbatim>\<open>a or b\<close> on optional strings (\<open>None\<close> is a missing dict key or Python's None): the first
  operand when it is truthy, that is present and not empty.
\<close>

definition truthy :: "string option \<Rightarrow> bool" where
  "truthy a = (a \<noteq> None \<and> a \<noteq> Some [])"

definition py_or :: "string option \<Rightarrow> string option \<Rightarrow> string option" where
  "py_or a b = (if truthy a then a else b)"

text \<open>\<^verbatim>\<open>a or ""\<close>, and \<^verbatim>\<open>a or b\<close> on two strings.\<close>

definition or_empty :: "string option \<Rightarrow> string" where
  "or_empty a = (case a of Some s \<Rightarrow> s | None \<Rightarrow> [])"

definition str_or :: "string \<Rightarrow> string \<Rightarrow> string" where
  "str_or a b = (if a \<noteq> [] then a else b)"

text \<open>\<^verbatim>\<open>d.get(key, default)\<close> on a field that is \<open>None\<close> when the key is missing.\<close>

definition get_or :: "'a option \<Rightarrow> 'a \<Rightarrow> 'a" where
  "get_or a d = (case a of Some x \<Rightarrow> x | None \<Rightarrow> d)"

text \<open>The slice \<^verbatim>\<open>xs[:m]\<close>; a negative \<open>m\<close> counts from the end.\<close>

definition py_prefix :: "int \<Rightarrow> 'a list \<Rightarrow> 'a list" where
  "py_prefix m xs = (if 0 \<le> m then take (nat m) xs else take (length xs - nat (- m)) xs)"

text \<open>
  The retry loop every Gemini call site shares:
  \<^verbatim>\<open>for attempt in range(3): try: ... except Exception as e:
       if "429" in str(e) and attempt < 2: sleep_backoff() else: <give up>\<close>.
  \<open>f attempt\<close> is what the body of the \<^verbatim>\<open>try\<close> does at that attempt: \<open>Inr\<close> its result, or
  \<open>Inl\<close> the text \<^verbatim>\<open>str(e)\<close> of the exception it raises. A rate-limit error at attempt 0 or
  1 is retried; the third attempt is final.
\<close>

definition rate_limited :: "string \<Rightarrow> bool" where
  "rate_limited e = sublist ''429'' e"

definition gemini_retry :: "(nat \<Rightarrow> string + 'a) \<Rightarrow> string + 'a" where
  "gemini_retry f =
     (case f 0 of
        Inr x \<Rightarrow> Inr x
      | Inl e0 \<Rightarrow>
          if rate_limited e0
          then (case f 1 of
                  Inr x \<Rightarrow> Inr x
                | Inl e1 \<Rightarrow> if rate_limited e1 then f 2 else Inl e1)
          else Inl e0)"

section \<open>Floats\<close>

text \<open>
  A Python \<^verbatim>\<open>float\<close> as the rubric scores and the threshold carry it: a finite value, an
  infinity or NaN. \<^verbatim>\<open>json.loads\<close> reads the literals \<^verbatim>\<open>NaN\<close>, \<^verbatim>\<open>Infinity\<close> and \<^verbatim>\<open>-Infinity\<close>,
  and \<^verbatim>\<open>float\<close> accepts the strings \<^verbatim>\<open>"nan"\<close> and \<^verbatim>\<open>"inf"\<close>. The code only compares these
  values; every comparison with NaN is false.
\<close>

datatype pyfloat = Finite real | PosInf | NegInf | NaN

text \<open>\<^verbatim>\<open>a < b\<close> and \<^verbatim>\<open>a >= b\<close>.\<close>

fun float_lt :: "pyfloat \<Rightarrow> pyfloat \<Rightarrow> bool" where
  "float_lt NaN b = False"
| "float_lt a NaN = False"
| "float_lt (Finite x) (Finite y) = (x < y)"
| "float_lt (Finite x) PosInf = True"
| "float_lt (Finite x) NegInf = False"
| "float_lt NegInf (Finite y) = True"
| "float_lt NegInf PosInf = True"
| "float_lt NegInf NegInf = False"
| "float_lt PosInf b = False"

fun float_ge :: "pyfloat \<Rightarrow> pyfloat \<Rightarrow> bool" where
  "float_ge NaN b = False"
| "float_ge a NaN = False"
| "float_ge (Finite x) (Finite y) = (x \<ge> y)"
| "float_ge (Finite x) PosInf = False"
| "float_ge (Finite x) NegInf = True"
| "float_ge NegInf (Finite y) = False"
| "float_ge NegInf PosInf = False"
| "float_ge NegInf NegInf = True"
| "float_ge PosInf b = True"

section \<open>Process-wide configuration (backend/config.py, configure_nodes)\<close>

text \<open>
  The thresholds the stages read from module globals. \<open>is_allowed_url\<close> is the predicate of
  \<^verbatim>\<open>utils/http_utils.py\<close> for the configured \<^verbatim>\<open>ALLOWED_DOMAINS\<close>; it rests on \<^verbatim>\<open>urlparse\<close> and
  is taken as given. \<open>MIN_OVERALL\<close> is \<^verbatim>\<open>float(os.getenv("MIN_OVERALL", "0.7"))\<close>.
\<close>

record config =
  MIN_OVERALL :: pyfloat
  MAX_LOOPS :: int
  SUBQ_SEARCH_COUNT :: int
  MAX_SOURCES_FOR_CITATIONS :: int
  MAX_EVIDENCE_SNIPPETS :: int
  is_allowed_url :: "string \<Rightarrow> bool"

section \<open>Evidence records (backend/utils/web_utils.py)\<close>

text \<open>
  An evidence record is a \<^verbatim>\<open>Dict[str, Any]\<close> with the keys \<^verbatim>\<open>title\<close>, \<^verbatim>\<open>link\<close>, \<^verbatim>\<open>url\<close>,
  \<^verbatim>\<open>snippet\<close>, \<^verbatim>\<open>displayLink\<close>, \<^verbatim>\<open>summary\<close> and \<^verbatim>\<open>n\<close>; a field is \<open>None\<close> when the key is
  missing. The fields carry the prefix \<open>ev_\<close>.
\<close>

record evidence =
  ev_title :: "string option"
  ev_link :: "string option"
  ev_url :: "string option"
  ev_snippet :: "string option"
  ev_displayLink :: "string option"
  ev_summary :: "string option"
  ev_n :: "int option"

text \<open>\<^verbatim>\<open>(r.get("link") or r.get("url") or "").strip()\<close>, the key of \<^verbatim>\<open>dedupe_by_link\<close>.\<close>

definition link_key :: "evidence \<Rightarrow> string" where
  "link_key r = strip (or_empty (py_or (ev_link r) (ev_url r)))"

text \<open>
  \<^verbatim>\<open>dedupe_by_link\<close>: the loop over \<^verbatim>\<open>items\<close> with its two accumulators, the set \<^verbatim>\<open>seen\<close> and
  the list \<^verbatim>\<open>out\<close>.
\<close>

fun dedupe_loop :: "string set \<Rightarrow> evidence list \<Rightarrow> evidence list \<Rightarrow> evidence list" where
  "dedupe_loop seen out [] = out"
| "dedupe_loop seen out (r # items) =
     (let k = link_key r
      in if k \<noteq> [] \<and> k \<notin> seen
         then dedupe_loop (insert k seen) (out @ [r]) items
         else dedupe_loop seen out items)"

definition dedupe_by_link :: "evidence list \<Rightarrow> evidence list" where
  "dedupe_by_link items = dedupe_loop {} [] items"

text \<open>\<^verbatim>\<open>is_probably_pdf(url, content_type)\<close>.\<close>

definition is_probably_pdf :: "string \<Rightarrow> string option \<Rightarrow> bool" where
  "is_probably_pdf u content_type =
     (if suffix ''.pdf'' (lower u) then True
      else if truthy content_type \<and> sublist ''pdf'' (lower (or_empty content_type)) then True
      else False)"

text \<open>
  What one call of \<^verbatim>\<open>expand_and_summarize_web(link, query, queue)\<close> meets outside the
  program: the answer of \<^verbatim>\<open>fetch_url\<close> (None, or a response with its \<^verbatim>\<open>content-type\<close>
  header) and, per attempt, the summary text Gemini returns or the error it raises. An
  error while the fetched page is parsed is caught by the inner handler and only changes
  the prompt. \<open>unexpected\<close> is an exception raised outside the two inner handlers, which
  only the outermost handler catches.
\<close>

datatype fetched = No_response | Response string

record link_io =
  unexpected :: "string option"
  fetch_url :: fetched
  summarize :: "nat \<Rightarrow> string + string"

text \<open>
  \<^verbatim>\<open>expand_and_summarize_web\<close>: the list of the records it puts on the queue, in order. The
  \<^verbatim>\<open>finally: queue.put(link)\<close> clause runs on every way out of the \<^verbatim>\<open>try\<close>, also after the
  three \<^verbatim>\<open>queue.put(link); return\<close>.
\<close>

definition expand_and_summarize_web :: "config \<Rightarrow> link_io \<Rightarrow> evidence \<Rightarrow> evidence list" where
  "expand_and_summarize_web cfg io link =
     (case unexpected io of
        Some e \<Rightarrow> [link\<lparr>ev_summary := Some (''Error: '' @ e)\<rparr>]
      | None \<Rightarrow>
          (let u = or_empty (py_or (ev_link link) (ev_url link))
           in if u = [] \<or> \<not> is_allowed_url cfg u
              then (let l = link\<lparr>ev_summary := Some ''Filtered or invalid URL''\<rparr>
                    in [l, l])
              else
                (let title = get_or (ev_title link) (get_or (ev_displayLink link) ''Source'')
                 in case fetch_url io of
                      No_response \<Rightarrow>
                        (let l = link\<lparr>ev_summary := Some ''Failed to fetch page.'',
                                      ev_title := Some title\<rparr>
                         in [l, l])
                    | Response ctype \<Rightarrow>
                        if is_probably_pdf u (Some ctype)
                        then (let l = link\<lparr>ev_summary := Some ''PDF detected; skipped parsing.'',
                                           ev_title := Some title\<rparr>
                              in [l, l])
                        else (case gemini_retry (summarize io) of
                                Inr text \<Rightarrow>
                                  [link\<lparr>ev_summary := Some (strip text), ev_title := Some title\<rparr>]
                              | Inl e \<Rightarrow> [link\<lparr>ev_summary := Some (''Error: '' @ e)\<rparr>]))))"

section \<open>The Retrieve stage (backend/workflows/agents.py, executor)\<close>

text \<open>
  \<^verbatim>\<open>search_with_google_cse\<close>: the HTTP call either raises (the function logs and returns the
  empty list) or yields the \<^verbatim>\<open>items\<close> of the response, of which the function keeps
  \<^verbatim>\<open>title\<close>, \<^verbatim>\<open>link\<close> (also under \<^verbatim>\<open>url\<close>) and \<^verbatim>\<open>snippet\<close>, each defaulting to the empty string.
\<close>

record cse_item =
  item_title :: "string option"
  item_link :: "string option"
  item_snippet :: "string option"

definition search_with_google_cse :: "string + cse_item list \<Rightarrow> evidence list" where
  "search_with_google_cse response =
     (case response of
        Inl e \<Rightarrow> []
      | Inr items \<Rightarrow>
          map (\<lambda>item. \<lparr>ev_title = Some (get_or (item_title item) []),
                       ev_link = Some (get_or (item_link item) []),
                       ev_url = Some (get_or (item_link item) []),
                       ev_snippet = Some (get_or (item_snippet item) []),
                       ev_displayLink = None, ev_summary = None, ev_n = None\<rparr>) items)"

text \<open>\<^verbatim>\<open>allowed_url\<close> of web_utils.py: a passthrough.\<close>

definition allowed_url :: "string \<Rightarrow> bool" where
  "allowed_url u = True"

text \<open>
  What the loop body for one subquery meets outside the program: the response to the
  search (\<open>Inl\<close> when the HTTP call fails inside \<^verbatim>\<open>search_with_google_cse\<close>, which catches
  every exception itself); \<open>start_raises = Some (j, e)\<close> when creating or starting the
  worker thread of link number \<open>j\<close> raises \<open>e\<close>, the one statement of the \<^verbatim>\<open>try\<close> block that
  can raise into \<^verbatim>\<open>executor\<close>; the environment of each worker; and the order in which the
  workers' \<^verbatim>\<open>queue.put\<close> calls arrived, as a rearrangement of their outputs.
\<close>

record subq_io =
  cse_response :: "string + cse_item list"
  start_raises :: "(nat \<times> string) option"
  page_io :: "nat \<Rightarrow> link_io"
  arrival :: "evidence list \<Rightarrow> evidence list"

text \<open>
  The links of one subquery, \<^verbatim>\<open>[l for l in links if allowed_url(...)][:SUBQ_SEARCH_COUNT]\<close>;
  the exception that leaves the \<^verbatim>\<open>try\<close> block, if any (there is a thread to fail only for
  a link that exists); and the links for which a worker thread was started before the
  block was left.
\<close>

definition subquery_links :: "config \<Rightarrow> subq_io \<Rightarrow> evidence list" where
  "subquery_links cfg io =
     py_prefix (SUBQ_SEARCH_COUNT cfg)
       (filter (\<lambda>l. allowed_url (str_or (get_or (ev_link l) []) (get_or (ev_url l) [])))
               (search_with_google_cse (cse_response io)))"

definition raised :: "config \<Rightarrow> subq_io \<Rightarrow> (nat \<times> string) option" where
  "raised cfg io =
     (case start_raises io of
        None \<Rightarrow> None
      | Some (j, e) \<Rightarrow> if j < length (subquery_links cfg io) then Some (j, e) else None)"

definition started_links :: "config \<Rightarrow> subq_io \<Rightarrow> evidence list" where
  "started_links cfg io =
     (case raised cfg io of
        None \<Rightarrow> subquery_links cfg io
      | Some (j, e) \<Rightarrow> take j (subquery_links cfg io))"

text \<open>The records one iteration of \<^verbatim>\<open>for subq in state.subqueries\<close> appends to \<^verbatim>\<open>aggregated\<close>:
  the placeholder of the \<^verbatim>\<open>except\<close> clause first, then, the threads joined, the drained
  queue.\<close>

definition run_subquery :: "config \<Rightarrow> subq_io \<Rightarrow> string \<Rightarrow> evidence list" where
  "run_subquery cfg io subq =
     (let placeholder =
            (case raised cfg io of
               None \<Rightarrow> []
             | Some (j, e) \<Rightarrow>
                 [\<lparr>ev_title = Some subq, ev_link = Some [], ev_url = None, ev_snippet = None,
                   ev_displayLink = None, ev_summary = Some (''Websearch error: '' @ e),
                   ev_n = None\<rparr>]);
          queue = arrival io
                    (concat (map (\<lambda>(i, l). expand_and_summarize_web cfg (page_io io i) l)
                                 (enumerate 0 (started_links cfg io))))
      in placeholder @ queue)"

definition aggregate :: "config \<Rightarrow> (nat \<Rightarrow> subq_io) \<Rightarrow> string list \<Rightarrow> evidence list" where
  "aggregate cfg env subqs =
     concat (map (\<lambda>(i, subq). run_subquery cfg (env i) subq) (enumerate 0 subqs))"

text \<open>
  \<^verbatim>\<open>for i, r in enumerate(state.web_results[:MAX_SOURCES_FOR_CITATIONS]): r["n"] = i + 1\<close>.
  The loop writes into the dicts of the list; a deduplicated list holds each dict once,
  so the list afterwards is its numbered prefix followed by the untouched rest.
\<close>

definition number_sources :: "int \<Rightarrow> evidence list \<Rightarrow> evidence list" where
  "number_sources m rs =
     (let k = length (py_prefix m rs)
      in map (\<lambda>(i, r). r\<lparr>ev_n := Some (int i + 1)\<rparr>) (enumerate 0 (py_prefix m rs)) @ drop k rs)"

text \<open>
  The RAG half of \<^verbatim>\<open>executor\<close>. The request either raises somewhere in the outer \<^verbatim>\<open>try\<close>
  (\<open>Rag_failed\<close> with \<^verbatim>\<open>str(e)\<close>) or yields the \<^verbatim>\<open>output_text\<close> of the response (\<open>None\<close> when
  the key is missing) and the outcome of the bounded wait for \<^verbatim>\<open>get_concise_summary\<close>:
  a timeout, or the attempts of its Gemini call.
\<close>

datatype summary_wait = Timed_out | Summarized "nat \<Rightarrow> string + string option"

datatype rag_response = Rag_failed string | Rag_answered "string option" summary_wait

text \<open>\<^verbatim>\<open>get_concise_summary\<close>: the stripped text, or a fixed message when the call gives up.\<close>

definition get_concise_summary :: "(nat \<Rightarrow> string + string option) \<Rightarrow> string" where
  "get_concise_summary gemini =
     (case gemini_retry gemini of
        Inr text \<Rightarrow> strip (or_empty text)
      | Inl e \<Rightarrow> ''Summary not available due to API error.'')"

section \<open>The query state and the stages (backend/models/langgraph_models.py, agents.py)\<close>

record EvalRubric =
  coverage :: pyfloat
  grounding :: pyfloat
  coherence :: pyfloat
  overall :: pyfloat
  replan_needed :: bool
  critique :: string

text \<open>
  \<^verbatim>\<open>QueryState\<close>. \<open>answers\<close> is a dict from subquery to answer, kept as an association list
  in insertion order.
\<close>

record QueryState =
  question :: string
  summary :: string
  subqueries :: "string list"
  answers :: "(string \<times> string) list"
  final_answer :: string
  evaluation :: string
  evaluation_reason :: string
  feedback :: string
  previous_subqueries :: "string list"
  bad_subqueries :: "string list"
  loop_count :: int
  web_results :: "evidence list"
  rag_answer :: string
  rag_summary :: string
  scores :: "EvalRubric option"

text \<open>\<^verbatim>\<open>QueryState(question=...)\<close>, every other field at its default.\<close>

definition QueryState_init :: "string \<Rightarrow> QueryState" where
  "QueryState_init q =
     \<lparr>question = q, summary = [], subqueries = [], answers = [], final_answer = [],
      evaluation = [], evaluation_reason = [], feedback = [], previous_subqueries = [],
      bad_subqueries = [], loop_count = 0, web_results = [], rag_answer = [],
      rag_summary = [], scores = None\<rparr>"

text \<open>
  One attempt of a text completion: \<^verbatim>\<open>generate_content\<close> raises, or it returns a response
  whose \<^verbatim>\<open>.text\<close> raises when read, or \<^verbatim>\<open>.text\<close> is a string or None.
\<close>

datatype completion = Call_error string | Text_error string | Text "string option"

definition text_of :: "completion \<Rightarrow> string + string option" where
  "text_of c = (case c of Call_error e \<Rightarrow> Inl e | Text_error e \<Rightarrow> Inl e | Text t \<Rightarrow> Inr t)"

definition structured_summarizer :: "(nat \<Rightarrow> completion) \<Rightarrow> QueryState \<Rightarrow> QueryState" where
  "structured_summarizer gemini state =
     (case gemini_retry (\<lambda>attempt. text_of (gemini attempt)) of
        Inr text \<Rightarrow> state\<lparr>summary := strip (or_empty text)\<rparr>
      | Inl e \<Rightarrow> state\<lparr>summary := ''Error: '' @ e\<rparr>)"

text \<open>The list comprehension of \<^verbatim>\<open>planner\<close> over the lines of the response.\<close>

definition parse_subqueries :: "string \<Rightarrow> string list" where
  "parse_subqueries text =
     map (\<lambda>line. strip (strip_chars ''0123456789. '' line))
         (filter (\<lambda>line. strip line \<noteq> [] \<and> \<not> prefix ''here are'' (lower line))
                 (splitlines text))"

text \<open>
  \<^verbatim>\<open>planner\<close>. Its \<^verbatim>\<open>try\<close> body assigns \<^verbatim>\<open>previous_subqueries\<close> between the call and the read of
  \<^verbatim>\<open>resp.text\<close>, so the retry loop is written out with the state it threads. The third
  attempt always returns; the empty range is never reached from \<^verbatim>\<open>range(3)\<close>.
\<close>

fun planner_attempts :: "(nat \<Rightarrow> completion) \<Rightarrow> nat list \<Rightarrow> QueryState \<Rightarrow> QueryState" where
  "planner_attempts gemini [] state = state"
| "planner_attempts gemini (attempt # rest) state =
     (case gemini attempt of
        Text text \<Rightarrow>
          state\<lparr>previous_subqueries := subqueries state,
                subqueries := parse_subqueries (or_empty text)\<rparr>
      | Call_error e \<Rightarrow>
          if rate_limited e \<and> attempt < 2 then planner_attempts gemini rest state
          else state\<lparr>subqueries := []\<rparr>
      | Text_error e \<Rightarrow>
          (let state' = state\<lparr>previous_subqueries := subqueries state\<rparr>
           in if rate_limited e \<and> attempt < 2 then planner_attempts gemini rest state'
              else state'\<lparr>subqueries := []\<rparr>))"

definition planner :: "(nat \<Rightarrow> completion) \<Rightarrow> QueryState \<Rightarrow> QueryState" where
  "planner gemini state = planner_attempts gemini [0, 1, 2] state"

text \<open>What one \<^verbatim>\<open>executor\<close> pass meets: the RAG response and, per position in
  \<^verbatim>\<open>state.subqueries\<close>, the environment of that subquery.\<close>

record executor_io =
  rag :: rag_response
  web :: "nat \<Rightarrow> subq_io"

definition executor :: "config \<Rightarrow> executor_io \<Rightarrow> QueryState \<Rightarrow> QueryState" where
  "executor cfg io state =
     (let state =
            (case rag io of
               Rag_answered output_text wait \<Rightarrow>
                 (let answer = get_or output_text ''No answer from RAG.''
                  in state\<lparr>rag_answer := answer,
                           rag_summary :=
                             (case wait of
                                Summarized gemini \<Rightarrow> get_concise_summary gemini
                              | Timed_out \<Rightarrow>
                                  if answer \<noteq> [] then take 200 answer @ ''...''
                                  else ''No summary available'')\<rparr>)
             | Rag_failed e \<Rightarrow>
                 state\<lparr>rag_answer := ''RAG Error: '' @ e,
                       rag_summary := ''RAG summary failed.''\<rparr>);
          aggregated = aggregate cfg (web io) (subqueries state)
      in state\<lparr>web_results :=
                 number_sources (MAX_SOURCES_FOR_CITATIONS cfg) (dedupe_by_link aggregated)\<rparr>)"

text \<open>\<^verbatim>\<open>answer_subquestions\<close>: one retried call per subquery, stored under the subquery.\<close>

definition answer_subquestions :: "(nat \<Rightarrow> nat \<Rightarrow> completion) \<Rightarrow> QueryState \<Rightarrow> QueryState" where
  "answer_subquestions gemini state =
     state\<lparr>answers :=
       fold (\<lambda>(i, subquery) answers.
               AList.update subquery
                 (case gemini_retry (\<lambda>attempt. text_of (gemini i attempt)) of
                    Inr text \<Rightarrow> strip (or_empty text)
                  | Inl e \<Rightarrow> ''Gemini error: '' @ e)
                 answers)
            (enumerate 0 (subqueries state)) []\<rparr>"

definition synthesizer :: "(nat \<Rightarrow> completion) \<Rightarrow> QueryState \<Rightarrow> QueryState" where
  "synthesizer gemini state =
     (case gemini_retry (\<lambda>attempt. text_of (gemini attempt)) of
        Inr text \<Rightarrow> state\<lparr>final_answer := strip (or_empty text)\<rparr>
      | Inl e \<Rightarrow> state\<lparr>final_answer := ''Error: '' @ e\<rparr>)"

text \<open>
  One attempt of the \<^verbatim>\<open>try\<close> body of \<^verbatim>\<open>evaluator\<close>, up to the conversions: \<open>Inl\<close> the text of
  whatever it raises (the call, the empty response, JSON that the repair call did not
  mend, a field that \<^verbatim>\<open>float\<close> rejects), or \<open>Inr\<close> the parsed object, each key present or
  missing, numbers already as \<^verbatim>\<open>float(...)\<close>, the flag as \<^verbatim>\<open>bool(...)\<close>, the critique as
  \<^verbatim>\<open>str(...)\<close>.
\<close>

record rubric_json =
  j_coverage :: "pyfloat option"
  j_grounding :: "pyfloat option"
  j_coherence :: "pyfloat option"
  j_overall :: "pyfloat option"
  j_replan_needed :: "bool option"
  j_critique :: "string option"

definition evaluator :: "config \<Rightarrow> (nat \<Rightarrow> string + rubric_json) \<Rightarrow> QueryState \<Rightarrow> QueryState" where
  "evaluator cfg gemini_json state0 =
     (let state = state0\<lparr>loop_count := loop_count state0 + 1\<rparr>
      in case gemini_retry gemini_json of
           Inr data \<Rightarrow>
             (let rubric = \<lparr>coverage = get_or (j_coverage data) (Finite 0),
                            grounding = get_or (j_grounding data) (Finite 0),
                            coherence = get_or (j_coherence data) (Finite 0),
                            overall = get_or (j_overall data) (Finite 0),
                            replan_needed = get_or (j_replan_needed data) False,
                            critique = get_or (j_critique data) []\<rparr>;
                  state = state\<lparr>scores := Some rubric\<rparr>
              in if float_ge (overall rubric) (MIN_OVERALL cfg)
                 then state\<lparr>evaluation := ''yes'', feedback := [], bad_subqueries := []\<rparr>
                 else state\<lparr>evaluation := ''no'',
                            feedback := str_or (critique rubric) ''Needs improvement'',
                            bad_subqueries := subqueries state\<rparr>)
         | Inl e \<Rightarrow>
             (let rubric = \<lparr>coverage = Finite 0, grounding = Finite 0, coherence = Finite 0,
                            overall = Finite 0,
                            replan_needed = True, critique = ''Evaluation failed: '' @ e\<rparr>
              in state\<lparr>scores := Some rubric, evaluation := ''no'',
                        feedback := critique rubric,
                        bad_subqueries := subqueries state\<rparr>))"

text \<open>\<^verbatim>\<open>should_replan\<close>, the function on the conditional edge after \<^verbatim>\<open>evaluator\<close>.\<close>

definition should_replan :: "config \<Rightarrow> QueryState \<Rightarrow> string" where
  "should_replan cfg state =
     (if loop_count state \<ge> MAX_LOOPS cfg then ''end''
      else if (case scores state of Some r \<Rightarrow> float_lt (overall r) (MIN_OVERALL cfg) | None \<Rightarrow> False)
           then ''replan''
      else ''end'')"

section \<open>The workflow graph (backend/workflows/graph.py)\<close>

text \<open>
  The compiled graph runs \<^verbatim>\<open>summarizer\<close> once, then the chain \<^verbatim>\<open>planner\<close>, \<^verbatim>\<open>executor\<close>,
  \<^verbatim>\<open>answer_subqs\<close>, \<^verbatim>\<open>synthesizer\<close>, \<^verbatim>\<open>evaluator\<close>, and follows the conditional edge:
  \<^verbatim>\<open>"replan"\<close> back to \<^verbatim>\<open>planner\<close>, \<^verbatim>\<open>"end"\<close> to END. \<open>pass_io\<close> is what the stages of one
  pass meet outside the program.
\<close>

record pass_io =
  plan_io :: "nat \<Rightarrow> completion"
  exec_io :: executor_io
  answer_io :: "nat \<Rightarrow> nat \<Rightarrow> completion"
  synth_io :: "nat \<Rightarrow> completion"
  eval_io :: "nat \<Rightarrow> string + rubric_json"

definition run_pass :: "config \<Rightarrow> pass_io \<Rightarrow> QueryState \<Rightarrow> QueryState" where
  "run_pass cfg io state =
     evaluator cfg (eval_io io)
       (synthesizer (synth_io io)
         (answer_subquestions (answer_io io)
           (executor cfg (exec_io io)
             (planner (plan_io io) state))))"

text \<open>
  The loop of the graph from \<^verbatim>\<open>planner\<close> on, pass number \<open>i\<close> first: the list of the states
  the successive \<^verbatim>\<open>evaluator\<close> passes return, the last of them the final state. The
  recursion is well-founded for every configuration and environment: each pass adds 1 to
  \<open>loop_count\<close>, and the edge replans only below \<open>MAX_LOOPS\<close>.
\<close>

function workflow_loop ::
  "config \<Rightarrow> (nat \<Rightarrow> pass_io) \<Rightarrow> nat \<Rightarrow> QueryState \<Rightarrow> QueryState list" where
  "workflow_loop cfg io i state =
     (let state' = run_pass cfg (io i) state
      in if should_replan cfg state' = ''replan''
         then state' # workflow_loop cfg io (Suc i) state'
         else [state'])"
  by pat_completeness auto
termination
proof (relation "measure (\<lambda>(cfg, io, i, state). nat (MAX_LOOPS cfg - loop_count state))")
  show "wf (measure (\<lambda>(cfg, io, i, state). nat (MAX_LOOPS cfg - loop_count state)))"
    by simp
next
  fix cfg :: config and io :: "nat \<Rightarrow> pass_io" and i :: nat and state state' :: QueryState
  assume s': "state' = run_pass cfg (io i) state"
    and replan: "should_replan cfg state' = ''replan''"
  have attempts: "loop_count (planner_attempts g as s) = loop_count s" for g as s
    by (induction as arbitrary: s) (auto simp: Let_def split: completion.splits)
  have plan: "loop_count (planner g s) = loop_count s" for g s
    by (simp only: planner_def attempts)
  have exec: "loop_count (executor cfg e s) = loop_count s" for e s
    by (simp add: executor_def Let_def split: rag_response.splits)
  have answer: "loop_count (answer_subquestions g s) = loop_count s" for g s
    by (simp add: answer_subquestions_def)
  have synth: "loop_count (synthesizer g s) = loop_count s" for g s
    by (simp add: synthesizer_def split: sum.splits)
  have eval: "loop_count (evaluator cfg g s) = loop_count s + 1" for g s
    by (simp add: evaluator_def Let_def split: sum.splits)
  have "loop_count state' = loop_count state + 1"
    by (simp only: s' run_pass_def eval synth answer exec plan)
  moreover from replan have "loop_count state' < MAX_LOOPS cfg"
    by (simp add: should_replan_def split: if_splits)
  ultimately show "((cfg, io, Suc i, state'), (cfg, io, i, state))
      \<in> measure (\<lambda>(cfg, io, i, state). nat (MAX_LOOPS cfg - loop_count state))"
    by simp
qed

text \<open>A run on a question: the states after each \<^verbatim>\<open>evaluator\<close> pass.\<close>

definition run_workflow ::
  "config \<Rightarrow> (nat \<Rightarrow> completion) \<Rightarrow> (nat \<Rightarrow> pass_io) \<Rightarrow> string \<Rightarrow> QueryState list" where
  "run_workflow cfg sum_io io q =
     workflow_loop cfg io 0 (structured_summarizer sum_io (QueryState_init q))"

section \<open>Sample inputs\<close>

text \<open>
  The defaults of config.py with no domain restriction, and small environments on which
  the theorems below are instantiated.
\<close>

definition default_config :: config where
  "default_config =
     \<lparr>MIN_OVERALL = Finite (7 / 10), MAX_LOOPS = 3, SUBQ_SEARCH_COUNT = 3,
      MAX_SOURCES_FOR_CITATIONS = 10, MAX_EVIDENCE_SNIPPETS = 5,
      is_allowed_url = (\<lambda>u. True)\<rparr>"

text \<open>A search result as \<^verbatim>\<open>search_with_google_cse\<close> builds it, and one carrying a summary.\<close>

definition hit :: "string \<Rightarrow> string \<Rightarrow> evidence" where
  "hit t l =
     \<lparr>ev_title = Some t, ev_link = Some l, ev_url = Some l, ev_snippet = Some [],
      ev_displayLink = None, ev_summary = None, ev_n = None\<rparr>"

definition item :: "string \<Rightarrow> string \<Rightarrow> cse_item" where
  "item t l = \<lparr>item_title = Some t, item_link = Some l, item_snippet = None\<rparr>"

text \<open>A page that is fetched as HTML and summarised at the first attempt; a page whose
  fetch returns None.\<close>

definition page_ok :: "string \<Rightarrow> link_io" where
  "page_ok s =
     \<lparr>unexpected = None, fetch_url = Response ''text/html'', summarize = (\<lambda>attempt. Inr s)\<rparr>"

definition page_unreachable :: link_io where
  "page_unreachable =
     \<lparr>unexpected = None, fetch_url = No_response, summarize = (\<lambda>attempt. Inl ''unused'')\<rparr>"

text \<open>
  A subquery whose search request fails; a subquery whose search returns the given items
  and whose first worker thread cannot be started; a subquery whose search returns the
  given items, the worker results arriving in reverse order of the links.
\<close>

definition search_fails :: "string \<Rightarrow> subq_io" where
  "search_fails e =
     \<lparr>cse_response = Inl e, start_raises = None,
      page_io = (\<lambda>i. page_unreachable), arrival = id\<rparr>"

definition thread_start_fails :: "cse_item list \<Rightarrow> string \<Rightarrow> subq_io" where
  "thread_start_fails items e =
     \<lparr>cse_response = Inr items, start_raises = Some (0, e),
      page_io = (\<lambda>i. page_unreachable), arrival = id\<rparr>"

definition search_finds :: "cse_item list \<Rightarrow> (nat \<Rightarrow> link_io) \<Rightarrow> subq_io" where
  "search_finds items pages =
     \<lparr>cse_response = Inr items, start_raises = None, page_io = pages, arrival = rev\<rparr>"

text \<open>A pass in which every gateway call fails with a server error, and a pass in which
  every call succeeds and the rubric carries the given overall score.\<close>

definition failing_pass :: pass_io where
  "failing_pass =
     \<lparr>plan_io = (\<lambda>attempt. Call_error ''500''),
      exec_io = \<lparr>rag = Rag_failed ''500'', web = (\<lambda>i. search_fails ''500'')\<rparr>,
      answer_io = (\<lambda>i attempt. Call_error ''500''),
      synth_io = (\<lambda>attempt. Call_error ''500''),
      eval_io = (\<lambda>attempt. Inl ''500'')\<rparr>"

definition rubric_with :: "pyfloat \<Rightarrow> string \<Rightarrow> rubric_json" where
  "rubric_with x c =
     \<lparr>j_coverage = Some (Finite 1), j_grounding = Some (Finite 1),
      j_coherence = Some (Finite 1), j_overall = Some x,
      j_replan_needed = Some False, j_critique = Some c\<rparr>"

definition scoring_pass :: "pyfloat \<Rightarrow> pass_io" where
  "scoring_pass x =
     \<lparr>plan_io = (\<lambda>attempt. Text (Some ''1. What is X?'')),
      exec_io = \<lparr>rag = Rag_answered (Some ''X is Y.'') Timed_out,
                 web = (\<lambda>i. search_finds [item ''T'' ''http://a''] (\<lambda>j. page_ok ''s''))\<rparr>,
      answer_io = (\<lambda>i attempt. Text (Some ''X [1]'')),
      synth_io = (\<lambda>attempt. Text (Some ''X is Y [1].'')),
      eval_io = (\<lambda>attempt. Inr (rubric_with x ''thin''))\<rparr>"

section \<open>Properties of the TTL cache\<close>

lemma expiry_le_iff: "expiry_le e now = (\<not> expiry_gt e now)"
  by (cases e) auto

lemma expiry_less_trans: "expiry_less a b \<Longrightarrow> expiry_less b c \<Longrightarrow> expiry_less a c"
  by (cases a; cases b; cases c) auto

lemma min_loop_mem: "min_loop b es \<in> set (b # es)"
  by (induction es arbitrary: b) auto

lemma min_loop_le_best: "\<not> expiry_less (expiration_of b) (expiration_of (min_loop b es))"
proof (induction es arbitrary: b)
  case Nil
  show ?case by (cases "expiration_of b") auto
next
  case (Cons e es)
  show ?case
  proof (cases "expiry_less (expiration_of e) (expiration_of b)")
    case True
    have "\<not> expiry_less (expiration_of e) (expiration_of (min_loop e es))" by (rule Cons.IH)
    with True show ?thesis by (auto dest: expiry_less_trans)
  next
    case False
    then show ?thesis using Cons.IH [of b] by simp
  qed
qed

text \<open>The entry \<^verbatim>\<open>min\<close> picks has an expiration that no entry undercuts.\<close>

lemma min_loop_minimal:
  "x \<in> set (b # es) \<Longrightarrow> \<not> expiry_less (expiration_of x) (expiration_of (min_loop b es))"
proof (induction es arbitrary: b)
  case Nil
  then show ?case by (cases "expiration_of b") auto
next
  case (Cons e es)
  let ?b' = "if expiry_less (expiration_of e) (expiration_of b) then e else b"
  from Cons.prems consider "x = b" | "x = e" | "x \<in> set es" by auto
  then show ?case
  proof cases
    case 1
    then show ?thesis using min_loop_le_best [of b "e # es"] by simp
  next
    case 2
    show ?thesis
    proof (cases "expiry_less (expiration_of e) (expiration_of b)")
      case True
      then show ?thesis using 2 min_loop_le_best [of e es] by simp
    next
      case False
      have nb: "\<not> expiry_less (expiration_of b) (expiration_of (min_loop b es))"
        by (rule min_loop_le_best)
      show ?thesis
      proof
        assume "expiry_less (expiration_of x) (expiration_of (min_loop b (e # es)))"
        with False 2 have l: "expiry_less (expiration_of e) (expiration_of (min_loop b es))"
          by simp
        from False l nb show False
          by (cases "expiration_of e"; cases "expiration_of b";
              cases "expiration_of (min_loop b es)") auto
      qed
    qed
  next
    case 3
    then have "x \<in> set (?b' # es)" by simp
    from Cons.IH [OF this] show ?thesis by simp
  qed
qed

lemma delete_distinct_remove1:
  "distinct (map fst al) \<Longrightarrow> v \<in> set al \<Longrightarrow> AList.delete (fst v) al = remove1 v al"
proof (induction al)
  case Nil
  then show ?case by simp
next
  case (Cons p ps)
  show ?case
  proof (cases "p = v")
    case True
    with Cons.prems have "fst v \<notin> fst ` set ps" by auto
    then show ?thesis using True by simp
  next
    case False
    with Cons.prems have "v \<in> set ps" by auto
    moreover from this Cons.prems have "fst p \<noteq> fst v" by (auto simp: image_iff)
    ultimately show ?thesis using Cons False by auto
  qed
qed

lemma update_absent_append: "k \<notin> fst ` set al \<Longrightarrow> AList.update k v al = al @ [(k, v)]"
  by (induction al) auto

lemma update_present_keys: "k \<in> fst ` set al \<Longrightarrow> map fst (AList.update k v al) = map fst al"
  by (induction al) auto

lemma cleanup_none_expired:
  assumes "\<forall>e \<in> set (cache c). expiry_gt (expiration_of e) now"
  shows "cleanup_expired c now =
     (c\<lparr>cache := cache c, evictions := evictions c, stat_size := int (length (cache c))\<rparr>, 0)"
proof -
  from assms have "filter (\<lambda>e. expiry_le (expiration_of e) now) (cache c) = []"
    by (auto simp: filter_empty_conv expiry_le_iff)
  then show ?thesis by (simp add: cleanup_expired_def)
qed

lemma cleanup_fields [simp]:
  "max_size (fst (cleanup_expired c now)) = max_size c"
  "default_ttl (fst (cleanup_expired c now)) = default_ttl c"
  "misses (fst (cleanup_expired c now)) = misses c"
  "hits (fst (cleanup_expired c now)) = hits c"
  by (simp_all add: cleanup_expired_def Let_def)

lemma evict_fields [simp]:
  "max_size (evict_oldest c) = max_size c"
  "default_ttl (evict_oldest c) = default_ttl c"
  "misses (evict_oldest c) = misses c"
  "hits (evict_oldest c) = hits c"
  by (simp_all add: evict_oldest_def Let_def split: list.splits)

text \<open>What \<^verbatim>\<open>put\<close> stores under the key: the value and the expiration instant.\<close>

lemma put_lookup:
  "map_of (cache (put c k v ttl now1 now2)) k = Some (v, expiration_for ttl (default_ttl c) now2)"
  by (simp add: put_def Let_def update_conv')


subsection \<open>The dict invariant is kept by every operation\<close>

lemma fold_delete_distinct:
  "distinct (map fst al) \<Longrightarrow> distinct (map fst (fold AList.delete ks al))"
  by (induction ks arbitrary: al) (auto simp: distinct_delete)

lemma wf_init: "wf_cache (MemoryCache_init m ttl)"
  by (simp add: wf_cache_def MemoryCache_init_def)

lemma wf_cleanup: "wf_cache c \<Longrightarrow> wf_cache (fst (cleanup_expired c now))"
  by (simp add: wf_cache_def cleanup_expired_def Let_def fold_delete_distinct)

lemma wf_evict: "wf_cache c \<Longrightarrow> wf_cache (evict_oldest c)"
proof (cases "cache c")
  case Nil
  assume "wf_cache c"
  with Nil show ?thesis by (simp add: evict_oldest_def)
next
  case (Cons e es)
  assume "wf_cache c"
  then have "distinct (map fst (AList.delete (fst (min_loop e es)) (cache c)))"
    unfolding wf_cache_def by (rule distinct_delete)
  then show ?thesis by (simp add: wf_cache_def evict_oldest_def Cons Let_def)
qed

lemma wf_put: "wf_cache c \<Longrightarrow> wf_cache (put c k v ttl now1 now2)"
proof -
  let ?c1 = "fst (cleanup_expired c now1)"
  assume "wf_cache c"
  then have "wf_cache ?c1" by (rule wf_cleanup)
  then have "wf_cache (if int (length (cache ?c1)) \<ge> max_size ?c1 \<and> k \<notin> keys_of (cache ?c1)
                       then evict_oldest ?c1 else ?c1)"
    by (simp add: wf_evict)
  then show ?thesis
    by (simp add: put_def Let_def wf_cache_def distinct_update)
qed

lemma wf_get: "wf_cache c \<Longrightarrow> wf_cache (snd (get c k now))"
  by (auto simp: wf_cache_def get_def Let_def distinct_delete split: option.splits)

lemma wf_remove: "wf_cache c \<Longrightarrow> wf_cache (snd (remove c k))"
  by (simp add: wf_cache_def remove_def Let_def distinct_delete)

lemma wf_clear: "wf_cache (clear c)"
  by (simp add: wf_cache_def clear_def)

subsection \<open>Eviction at capacity\<close>

lemma evict_nonempty:
  assumes wf: "wf_cache c" and ne: "cache c \<noteq> []"
  shows "\<exists>victim \<in> set (cache c).
           (\<forall>e \<in> set (cache c). \<not> expiry_less (expiration_of e) (expiration_of victim))
         \<and> cache (evict_oldest c) = remove1 victim (cache c)
         \<and> evictions (evict_oldest c) = evictions c + 1"
proof -
  from ne obtain e es where ces: "cache c = e # es" by (cases "cache c") auto
  let ?v = "min_loop e es"
  have mem: "?v \<in> set (cache c)" using min_loop_mem [of e es] ces by simp
  have minimal: "\<forall>x \<in> set (cache c). \<not> expiry_less (expiration_of x) (expiration_of ?v)"
    using min_loop_minimal [of _ e es] ces by simp
  have "cache (evict_oldest c) = AList.delete (fst ?v) (cache c)"
    by (simp add: evict_oldest_def ces Let_def)
  also have "\<dots> = remove1 ?v (cache c)"
    using wf mem by (simp add: wf_cache_def delete_distinct_remove1)
  finally have c': "cache (evict_oldest c) = remove1 ?v (cache c)" .
  have ev: "evictions (evict_oldest c) = evictions c + 1"
    by (simp add: evict_oldest_def ces Let_def)
  from mem minimal c' ev show ?thesis by blast
qed

text \<open>
  Claim C7, as amended. On a cache with \<open>max_size \<ge> 1\<close> that holds \<open>max_size\<close> entries,
  none of them expired at the clock reading of the cleanup, \<^verbatim>\<open>put\<close> of a key that is not
  present removes exactly one entry, one whose expiration instant no other entry
  undercuts, appends the new entry, adds exactly 1 to the eviction counter and leaves
  \<open>max_size\<close> entries (the size counter agrees). \<^verbatim>\<open>put\<close> of a key that is present evicts
  nothing: the eviction counter and the keys, in their order, are unchanged.
\<close>

theorem put_at_capacity_evicts_nearest_expiration:
  assumes wf: "wf_cache c"
    and live: "\<forall>e \<in> set (cache c). expiry_gt (expiration_of e) now1"
  shows "(key \<notin> keys_of (cache c) \<and> int (length (cache c)) = max_size c \<and> 1 \<le> max_size c \<longrightarrow>
            (\<exists>victim \<in> set (cache c).
                (\<forall>e \<in> set (cache c). \<not> expiry_less (expiration_of e) (expiration_of victim))
              \<and> cache (put c key val ttl now1 now2)
                  = remove1 victim (cache c) @ [(key, val, expiration_for ttl (default_ttl c) now2)])
          \<and> evictions (put c key val ttl now1 now2) = evictions c + 1
          \<and> int (length (cache (put c key val ttl now1 now2))) = max_size c
          \<and> stat_size (put c key val ttl now1 now2) = max_size c)
       \<and> (key \<in> keys_of (cache c) \<longrightarrow>
            evictions (put c key val ttl now1 now2) = evictions c
          \<and> map fst (cache (put c key val ttl now1 now2)) = map fst (cache c))"
proof (intro conjI impI)
  let ?c1 = "fst (cleanup_expired c now1)"
  have c1: "?c1 = c\<lparr>cache := cache c, evictions := evictions c,
                     stat_size := int (length (cache c))\<rparr>"
    using cleanup_none_expired [OF live] by simp
  have c1_cache: "cache ?c1 = cache c" and c1_ev: "evictions ?c1 = evictions c"
    by (simp_all add: c1)
  have wf1: "wf_cache ?c1" using wf by (rule wf_cleanup)
  {
    assume a: "key \<notin> keys_of (cache c) \<and> int (length (cache c)) = max_size c \<and> 1 \<le> max_size c"
    then have ne: "cache ?c1 \<noteq> []" by (auto simp: c1_cache)
    from evict_nonempty [OF wf1 ne] obtain victim where
      vin: "victim \<in> set (cache c)"
      and vmin: "\<forall>e \<in> set (cache c). \<not> expiry_less (expiration_of e) (expiration_of victim)"
      and vc: "cache (evict_oldest ?c1) = remove1 victim (cache c)"
      and vev: "evictions (evict_oldest ?c1) = evictions c + 1"
      by (auto simp: c1_cache c1_ev)
    have fresh: "key \<notin> fst ` set (remove1 victim (cache c))"
      using a set_remove1_subset [of victim "cache c"] by (auto simp: keys_of_def)
    have put_cache:
      "cache (put c key val ttl now1 now2)
         = remove1 victim (cache c) @ [(key, val, expiration_for ttl (default_ttl c) now2)]"
      using a fresh by (simp add: put_def Let_def c1_cache vc update_absent_append)
    have len: "length (remove1 victim (cache c)) = length (cache c) - 1"
      using vin by (simp add: length_remove1)
    have pos: "0 < length (cache c)" using vin by (cases "cache c") auto
    show "\<exists>victim \<in> set (cache c).
                (\<forall>e \<in> set (cache c). \<not> expiry_less (expiration_of e) (expiration_of victim))
              \<and> cache (put c key val ttl now1 now2)
                  = remove1 victim (cache c) @ [(key, val, expiration_for ttl (default_ttl c) now2)]"
      using vin vmin put_cache by blast
    show "evictions (put c key val ttl now1 now2) = evictions c + 1"
      using a by (simp add: put_def Let_def c1_cache vev)
    show l: "int (length (cache (put c key val ttl now1 now2))) = max_size c"
      using a len pos by (simp add: put_cache)
    show "stat_size (put c key val ttl now1 now2) = max_size c"
      using l by (simp add: put_def Let_def)
  }
  {
    assume b: "key \<in> keys_of (cache c)"
    show "evictions (put c key val ttl now1 now2) = evictions c"
      using b by (simp add: put_def Let_def c1_cache c1_ev)
    show "map fst (cache (put c key val ttl now1 now2)) = map fst (cache c)"
      using b by (simp add: put_def Let_def c1_cache keys_of_def update_present_keys)
  }
qed


theorem put_at_capacity_witness:
  "cache (put \<lparr>max_size = 2, default_ttl = 3600,
               cache = [(''a'', 1::int, At 50), (''b'', 2, At 30)],
               hits = 0, misses = 0, evictions = 0, insertions = 2, stat_size = 2\<rparr>
            ''c'' 3 (Some 10) 20 21) = [(''a'', 1, At 50), (''c'', 3, At 31)]
   \<and> evictions (put \<lparr>max_size = 2, default_ttl = 3600,
               cache = [(''a'', 1::int, At 50), (''b'', 2, At 30)],
               hits = 0, misses = 0, evictions = 0, insertions = 2, stat_size = 2\<rparr>
            ''c'' 3 (Some 10) 20 21) = 1
   \<and> evictions (put \<lparr>max_size = 2, default_ttl = 3600,
               cache = [(''a'', 1::int, At 50), (''b'', 2, At 30)],
               hits = 0, misses = 0, evictions = 0, insertions = 2, stat_size = 2\<rparr>
            ''a'' 9 None 20 21) = 0"
  using put_at_capacity_evicts_nearest_expiration
    [of "\<lparr>max_size = 2, default_ttl = 3600,
          cache = [(''a'', 1::int, At 50), (''b'', 2, At 30)],
          hits = 0, misses = 0, evictions = 0, insertions = 2, stat_size = 2\<rparr>"
        20 "''c''" 3 "Some 10" 21]
    put_at_capacity_evicts_nearest_expiration
    [of "\<lparr>max_size = 2, default_ttl = 3600,
          cache = [(''a'', 1::int, At 50), (''b'', 2, At 30)],
          hits = 0, misses = 0, evictions = 0, insertions = 2, stat_size = 2\<rparr>"
        20 "''a''" 9 None 21]
  by (auto simp: wf_cache_def keys_of_def expiration_of_def expiration_for_def)

text \<open>
  Claim C7 as stated fails on a cache with \<open>max_size = 0\<close>: it holds \<open>max_size\<close> entries,
  \<^verbatim>\<open>_evict_oldest\<close> returns at once on the empty dict, and the new key is stored all the
  same, so nothing is evicted, the counter stays and the cache holds one entry.
\<close>

theorem put_at_capacity_counterexample:
  "wf_cache (MemoryCache_init 0 3600 :: (string, int) MemoryCache)
   \<and> int (length (cache (MemoryCache_init 0 3600 :: (string, int) MemoryCache)))
       = max_size (MemoryCache_init 0 3600 :: (string, int) MemoryCache)
   \<and> ''a'' \<notin> keys_of (cache (MemoryCache_init 0 3600 :: (string, int) MemoryCache))
   \<and> evictions (put (MemoryCache_init 0 3600) ''a'' (1::int) None 0 0)
       \<noteq> evictions (MemoryCache_init 0 3600 :: (string, int) MemoryCache) + 1
   \<and> int (length (cache (put (MemoryCache_init 0 3600) ''a'' (1::int) None 0 0)))
       \<noteq> max_size (MemoryCache_init 0 3600 :: (string, int) MemoryCache)"
  by (simp add: wf_cache_def MemoryCache_init_def put_def cleanup_expired_def
      evict_oldest_def keys_of_def Let_def)

subsection \<open>Time-to-live\<close>

text \<open>An explicit \<^verbatim>\<open>ttl=0\<close> stores an entry that no later \<^verbatim>\<open>get\<close> finds expired.\<close>

lemma put_explicit_zero_ttl_unbounded:
  "fst (get (put c k v (Some 0) now1 now2) k t) = Some v"
  by (simp add: get_def put_lookup expiration_for_def)

text \<open>
  With no \<^verbatim>\<open>ttl\<close> argument the default is added to the clock even when it is 0: the entry
  expires at the instant it is stored.
\<close>

lemma put_default_zero_ttl_expired_at_once:
  "default_ttl c = 0 \<Longrightarrow> now2 \<le> t \<Longrightarrow> fst (get (put c k v None now1 now2) k t) = None"
  by (simp add: get_def put_lookup expiration_for_def Let_def)

text \<open>
  Claim C6 at its failing input: on \<^verbatim>\<open>MemoryCache(ttl=0)\<close>, \<^verbatim>\<open>put('k', 'v')\<close> at clock
  reading 100 followed by \<^verbatim>\<open>get('k')\<close> at 101 returns None and \<^verbatim>\<open>contains('k')\<close> is false,
  where the constructor's docstring says that a default of 0 means no expiration. The
  same calls with the explicit argument \<^verbatim>\<open>ttl=0\<close> return the value.
\<close>

theorem default_ttl_zero_put_expires_immediately:
  "fst (get (put (MemoryCache_init 1000 0) ''k'' ''v'' None 100 100) ''k'' 101) = None
   \<and> \<not> contains (put (MemoryCache_init 1000 0) ''k'' ''v'' None 100 100) ''k'' 101
   \<and> fst (get (put (MemoryCache_init 1000 0) ''k'' ''v'' (Some 0) 100 100) ''k'' 101) = Some ''v''"
  by (simp add: get_def contains_def put_lookup expiration_for_def Let_def MemoryCache_init_def)



section \<open>Properties of the evidence aggregator\<close>

text \<open>The defining equations by which the sample inputs are evaluated.\<close>

lemmas eval_defs = executor_def aggregate_def run_subquery_def started_links_def subquery_links_def
  search_with_google_cse_def expand_and_summarize_web_def gemini_retry_def dedupe_by_link_def
  link_key_def strip_def is_space_def number_sources_def py_prefix_def is_probably_pdf_def
  lower_def lower_char_def suffix_to_prefix prefix_code sublist_code truthy_def py_or_def
  or_empty_def get_or_def str_or_def allowed_url_def Let_def rate_limited_def
  default_config_def hit_def item_def page_ok_def page_unreachable_def search_fails_def thread_start_fails_def raised_def
  search_finds_def QueryState_init_def

subsection \<open>Deduplication by link\<close>

lemma dedupe_loop_out: "dedupe_loop seen out items = out @ dedupe_loop seen [] items"
proof (induction items arbitrary: seen out)
  case Nil
  show ?case by simp
next
  case (Cons r items)
  show ?case
  proof (cases "link_key r \<noteq> [] \<and> link_key r \<notin> seen")
    case True
    then have "dedupe_loop seen out (r # items)
        = dedupe_loop (insert (link_key r) seen) (out @ [r]) items" by simp
    also have "\<dots> = (out @ [r]) @ dedupe_loop (insert (link_key r) seen) [] items"
      by (rule Cons.IH)
    also have "\<dots> = out @ dedupe_loop (insert (link_key r) seen) [r] items"
      using Cons.IH [of "insert (link_key r) seen" "[r]"] by simp
    also have "\<dots> = out @ dedupe_loop seen [] (r # items)" using True by simp
    finally show ?thesis .
  next
    case False
    then show ?thesis using Cons.IH [of seen out] by (auto simp: Let_def)
  qed
qed

lemma dedupe_loop_Cons:
  "dedupe_loop seen [] (r # items) =
     (if link_key r \<noteq> [] \<and> link_key r \<notin> seen
      then r # dedupe_loop (insert (link_key r) seen) [] items
      else dedupe_loop seen [] items)"
  using dedupe_loop_out [of "insert (link_key r) seen" "[r]" items] by (simp add: Let_def)

lemma dedupe_loop_keys:
  "link_key ` set (dedupe_loop seen [] items) = {k \<in> link_key ` set items. k \<noteq> [] \<and> k \<notin> seen}"
proof (induction items arbitrary: seen)
  case Nil
  show ?case by simp
next
  case (Cons r items)
  show ?case unfolding dedupe_loop_Cons using Cons.IH by auto
qed

lemma dedupe_loop_distinct: "distinct (map link_key (dedupe_loop seen [] items))"
proof (induction items arbitrary: seen)
  case Nil
  show ?case by simp
next
  case (Cons r items)
  have "link_key r \<notin> link_key ` set (dedupe_loop (insert (link_key r) seen) [] items)"
    unfolding dedupe_loop_keys by simp
  then show ?case unfolding dedupe_loop_Cons using Cons.IH by simp
qed

lemma dedupe_loop_subseq: "subseq (dedupe_loop seen [] items) items"
proof (induction items arbitrary: seen)
  case Nil
  show ?case by simp
next
  case (Cons r items)
  show ?case unfolding dedupe_loop_Cons using Cons.IH by (auto intro: subseq_Cons')
qed

lemma dedupe_loop_fixed:
  "distinct (map link_key ys) \<Longrightarrow> [] \<notin> link_key ` set ys \<Longrightarrow> link_key ` set ys \<inter> seen = {}
   \<Longrightarrow> dedupe_loop seen [] ys = ys"
proof (induction ys arbitrary: seen)
  case Nil
  show ?case by simp
next
  case (Cons r ys)
  from Cons.prems have k: "link_key r \<noteq> [] \<and> link_key r \<notin> seen" by auto
  from Cons.prems have "link_key ` set ys \<inter> insert (link_key r) seen = {}" by auto
  with Cons.prems have "dedupe_loop (insert (link_key r) seen) [] ys = ys"
    by (intro Cons.IH) auto
  with k show ?case unfolding dedupe_loop_Cons by simp
qed

lemma dedupe_loop_first:
  "r \<in> set (dedupe_loop seen [] items) \<Longrightarrow> find (\<lambda>x. link_key x = link_key r) items = Some r"
proof (induction items arbitrary: seen)
  case Nil
  then show ?case by simp
next
  case (Cons a items)
  show ?case
  proof (cases "link_key a \<noteq> [] \<and> link_key a \<notin> seen")
    case True
    with Cons.prems have "r = a \<or> r \<in> set (dedupe_loop (insert (link_key a) seen) [] items)"
      unfolding dedupe_loop_Cons by simp
    then show ?thesis
    proof
      assume "r = a"
      then show ?thesis by simp
    next
      assume in': "r \<in> set (dedupe_loop (insert (link_key a) seen) [] items)"
      then have "link_key r \<in> link_key ` set (dedupe_loop (insert (link_key a) seen) [] items)"
        by (rule imageI)
      then have "link_key r \<noteq> link_key a" unfolding dedupe_loop_keys by auto
      then show ?thesis using Cons.IH [OF in'] by simp
    qed
  next
    case False
    with Cons.prems have in': "r \<in> set (dedupe_loop seen [] items)"
      unfolding dedupe_loop_Cons by simp
    then have "link_key r \<in> link_key ` set (dedupe_loop seen [] items)" by (rule imageI)
    then have "link_key r \<noteq> [] \<and> link_key r \<notin> seen" unfolding dedupe_loop_keys by auto
    with False have "link_key a \<noteq> link_key r" by auto
    then show ?thesis using Cons.IH [OF in'] by simp
  qed
qed

text \<open>
  Claim C9. \<^verbatim>\<open>dedupe_by_link\<close> is idempotent. Its output is a subsequence of the input (the
  input order is kept), no link key occurs twice in it, its link keys are exactly the
  non-empty link keys of the input, and each record it keeps is the first record of the
  input with that link key. A record whose link key is empty has no link and is dropped.
\<close>

theorem dedupe_by_link_idempotent_first_occurrence:
  "dedupe_by_link (dedupe_by_link xs) = dedupe_by_link xs
   \<and> subseq (dedupe_by_link xs) xs
   \<and> distinct (map link_key (dedupe_by_link xs))
   \<and> link_key ` set (dedupe_by_link xs) = link_key ` set xs - {[]}
   \<and> (\<forall>r \<in> set (dedupe_by_link xs). find (\<lambda>x. link_key x = link_key r) xs = Some r)"
proof (intro conjI ballI)
  have keys: "link_key ` set (dedupe_by_link xs) = link_key ` set xs - {[]}"
    unfolding dedupe_by_link_def dedupe_loop_keys by auto
  show "link_key ` set (dedupe_by_link xs) = link_key ` set xs - {[]}" by (rule keys)
  show "distinct (map link_key (dedupe_by_link xs))"
    unfolding dedupe_by_link_def by (rule dedupe_loop_distinct)
  show "subseq (dedupe_by_link xs) xs"
    unfolding dedupe_by_link_def by (rule dedupe_loop_subseq)
  have "dedupe_loop {} [] (dedupe_by_link xs) = dedupe_by_link xs"
  proof (rule dedupe_loop_fixed)
    show "distinct (map link_key (dedupe_by_link xs))"
      unfolding dedupe_by_link_def by (rule dedupe_loop_distinct)
    show "[] \<notin> link_key ` set (dedupe_by_link xs)" unfolding keys by simp
    show "link_key ` set (dedupe_by_link xs) \<inter> {} = {}" by simp
  qed
  then show "dedupe_by_link (dedupe_by_link xs) = dedupe_by_link xs"
    by (simp add: dedupe_by_link_def)
next
  fix r
  assume "r \<in> set (dedupe_by_link xs)"
  then show "find (\<lambda>x. link_key x = link_key r) xs = Some r"
    unfolding dedupe_by_link_def by (rule dedupe_loop_first)
qed

theorem dedupe_by_link_witness:
  "dedupe_by_link [hit ''1'' ''a'', hit ''2'' [], hit ''3'' ''b'', hit ''4'' '' a '']
     = [hit ''1'' ''a'', hit ''3'' ''b'']
   \<and> dedupe_by_link (dedupe_by_link [hit ''1'' ''a'', hit ''2'' [], hit ''3'' ''b'', hit ''4'' '' a ''])
     = [hit ''1'' ''a'', hit ''3'' ''b'']"
  using dedupe_by_link_idempotent_first_occurrence
    [of "[hit ''1'' ''a'', hit ''2'' [], hit ''3'' ''b'', hit ''4'' '' a '']"]
  by (simp add: eval_defs)

subsection \<open>Citation numbers\<close>

lemma py_prefix_nonneg: "0 \<le> m \<Longrightarrow> py_prefix m xs = take (nat m) xs"
  by (simp add: py_prefix_def)

lemma take_length_take: "take (length (take j xs)) xs = take j xs"
  by (metis append_take_drop_id append_eq_conv_conj)

lemma py_prefix_is_take: "py_prefix m xs = take (length (py_prefix m xs)) xs"
  by (cases "0 \<le> m") (simp_all only: py_prefix_def take_length_take if_True if_False)

lemma numbered_indices:
  "map ev_n (map (\<lambda>(i, r). r\<lparr>ev_n := Some (int i + 1)\<rparr>) (enumerate j xs))
     = map (\<lambda>i. Some (int i)) [Suc j..<Suc j + length xs]"
proof (induction xs arbitrary: j)
  case Nil
  show ?case by simp
next
  case (Cons x xs)
  have "[Suc j..<Suc j + length (x # xs)] = Suc j # [Suc (Suc j)..<Suc (Suc j) + length xs]"
    using upt_conv_Cons [of "Suc j" "Suc j + length (x # xs)"] by simp
  then show ?case using Cons.IH [of "Suc j"] by simp
qed

lemma numbered_erase:
  "map (\<lambda>r. r\<lparr>ev_n := None\<rparr>) (map (\<lambda>(i, r). r\<lparr>ev_n := Some (int i + 1)\<rparr>) (enumerate j xs))
     = map (\<lambda>r. r\<lparr>ev_n := None\<rparr>) xs"
  by (induction xs arbitrary: j) simp_all

lemma number_sources_indices:
  "map ev_n (number_sources m rs) =
     map (\<lambda>i. Some (int i)) [1..<Suc (length (py_prefix m rs))]
     @ map ev_n (drop (length (py_prefix m rs)) rs)"
  using numbered_indices [of 0 "py_prefix m rs"]
  by (simp add: number_sources_def Let_def)

lemma number_sources_erase:
  "map (\<lambda>r. r\<lparr>ev_n := None\<rparr>) (number_sources m rs) = map (\<lambda>r. r\<lparr>ev_n := None\<rparr>) rs"
proof -
  let ?k = "length (py_prefix m rs)"
  have "map (\<lambda>r. r\<lparr>ev_n := None\<rparr>) (number_sources m rs)
      = map (\<lambda>r. r\<lparr>ev_n := None\<rparr>) (py_prefix m rs) @ map (\<lambda>r. r\<lparr>ev_n := None\<rparr>) (drop ?k rs)"
    using numbered_erase [of 0 "py_prefix m rs"] by (simp add: number_sources_def Let_def)
  also have "\<dots> = map (\<lambda>r. r\<lparr>ev_n := None\<rparr>) (take ?k rs @ drop ?k rs)"
    using py_prefix_is_take [of m rs] by (simp del: append_take_drop_id)
  finally show ?thesis by simp
qed

lemma unnumbered_erase: "\<forall>r \<in> set rs. ev_n r = None \<Longrightarrow> map (\<lambda>r. r\<lparr>ev_n := None\<rparr>) rs = rs"
  by (induction rs) auto

lemma search_unnumbered: "r \<in> set (search_with_google_cse resp) \<Longrightarrow> ev_n r = None"
  by (auto simp: search_with_google_cse_def split: sum.splits)

lemma expand_keeps_n: "r \<in> set (expand_and_summarize_web cfg io l) \<Longrightarrow> ev_n r = ev_n l"
  by (auto simp: expand_and_summarize_web_def Let_def
      split: option.splits fetched.splits sum.splits if_splits)

lemma subquery_links_unnumbered: "r \<in> set (subquery_links cfg io) \<Longrightarrow> ev_n r = None"
proof -
  assume "r \<in> set (subquery_links cfg io)"
  then have "r \<in> set (filter (\<lambda>l. allowed_url (str_or (get_or (ev_link l) []) (get_or (ev_url l) [])))
               (search_with_google_cse (cse_response io)))"
    unfolding subquery_links_def using py_prefix_is_take [of "SUBQ_SEARCH_COUNT cfg"]
    by (metis in_set_takeD)
  then show ?thesis by (auto dest: search_unnumbered)
qed

lemma started_links_unnumbered: "r \<in> set (started_links cfg io) \<Longrightarrow> ev_n r = None"
  by (auto simp: started_links_def split: option.splits dest: in_set_takeD subquery_links_unnumbered)

lemma run_subquery_unnumbered:
  assumes arr: "\<forall>xs. mset (arrival io xs) = mset xs"
    and r: "r \<in> set (run_subquery cfg io subq)"
  shows "ev_n r = None"
proof -
  let ?outs = "concat (map (\<lambda>(i, l). expand_and_summarize_web cfg (page_io io i) l)
                                 (enumerate 0 (started_links cfg io)))"
  let ?ph = "case raised cfg io of None \<Rightarrow> [] | Some (j, e) \<Rightarrow>
                 [\<lparr>ev_title = Some subq, ev_link = Some [], ev_url = None, ev_snippet = None,
                   ev_displayLink = None, ev_summary = Some (''Websearch error: '' @ e),
                   ev_n = None\<rparr>]"
  have set_arr: "set (arrival io ?outs) = set ?outs"
    using arr by (metis mset_eq_setD)
  have "run_subquery cfg io subq = ?ph @ arrival io ?outs"
    by (simp add: run_subquery_def Let_def)
  with r have "r \<in> set ?ph \<or> r \<in> set ?outs" by (simp add: set_arr)
  then show ?thesis
  proof
    assume "r \<in> set ?ph"
    then show ?thesis by (cases "raised cfg io") auto
  next
    assume "r \<in> set ?outs"
    then obtain i l where il: "(i, l) \<in> set (enumerate 0 (started_links cfg io))"
      and rin: "r \<in> set (expand_and_summarize_web cfg (page_io io i) l)"
      by auto
    from il have "l \<in> set (started_links cfg io)" by (auto simp: in_set_enumerate_eq)
    then have "ev_n l = None" by (rule started_links_unnumbered)
    with expand_keeps_n [OF rin] show ?thesis by simp
  qed
qed

lemma aggregate_unnumbered:
  assumes arr: "\<forall>i xs. mset (arrival (env i) xs) = mset xs"
    and r: "r \<in> set (aggregate cfg env subqs)"
  shows "ev_n r = None"
proof -
  from r obtain i subq where "r \<in> set (run_subquery cfg (env i) subq)"
    by (auto simp: aggregate_def)
  moreover have "\<forall>xs. mset (arrival (env i) xs) = mset xs" using arr by simp
  ultimately show ?thesis by (rule run_subquery_unnumbered [rotated])
qed

lemma executor_web_results:
  "web_results (executor cfg io state) =
     number_sources (MAX_SOURCES_FOR_CITATIONS cfg)
       (dedupe_by_link (aggregate cfg (web io) (subqueries state)))"
  by (simp add: executor_def Let_def split: rag_response.splits)

lemma dedupe_loop_subset: "set (dedupe_loop seen [] items) \<subseteq> set items"
proof (induction items arbitrary: seen)
  case Nil
  show ?case by simp
next
  case (Cons r items)
  show ?case unfolding dedupe_loop_Cons using Cons.IH by auto
qed

lemma dedupe_by_link_subset: "set (dedupe_by_link xs) \<subseteq> set xs"
  unfolding dedupe_by_link_def by (rule dedupe_loop_subset)

lemma unnumbered_indices: "\<forall>r \<in> set rs. ev_n r = None \<Longrightarrow> map ev_n rs = replicate (length rs) None"
  by (induction rs) auto

text \<open>
  Claim C5, as amended. After an \<^verbatim>\<open>executor\<close> pass with a limit \<open>MAX_SOURCES_FOR_CITATIONS \<ge> 0\<close>, in
  which every queue held a rearrangement of what the workers put on it: the \<^verbatim>\<open>n\<close> of
  \<^verbatim>\<open>state.web_results\<close> are 1, 2, .., k in this order, with k the smaller of the length of
  the deduplicated list and the limit, and the records after the k-th carry no \<^verbatim>\<open>n\<close>;
  erasing \<^verbatim>\<open>n\<close> from \<^verbatim>\<open>state.web_results\<close> gives the deduplicated aggregate, so the numbers
  are assigned to the list as it is after deduplication by link.
\<close>

theorem executor_citation_indices_dense:
  assumes limit: "0 \<le> MAX_SOURCES_FOR_CITATIONS cfg"
    and arr: "\<forall>i xs. mset (arrival (web io i) xs) = mset xs"
  shows "map ev_n (web_results (executor cfg io state)) =
           map (\<lambda>i. Some (int i))
               [1..<Suc (min (length (dedupe_by_link (aggregate cfg (web io) (subqueries state))))
                             (nat (MAX_SOURCES_FOR_CITATIONS cfg)))]
           @ replicate
               (length (dedupe_by_link (aggregate cfg (web io) (subqueries state)))
                 - min (length (dedupe_by_link (aggregate cfg (web io) (subqueries state))))
                       (nat (MAX_SOURCES_FOR_CITATIONS cfg)))
               None
       \<and> map (\<lambda>r. r\<lparr>ev_n := None\<rparr>) (web_results (executor cfg io state))
           = dedupe_by_link (aggregate cfg (web io) (subqueries state))"
proof -
  let ?d = "dedupe_by_link (aggregate cfg (web io) (subqueries state))"
  let ?m = "MAX_SOURCES_FOR_CITATIONS cfg"
  have fresh: "\<forall>r \<in> set ?d. ev_n r = None"
    using dedupe_by_link_subset [of "aggregate cfg (web io) (subqueries state)"]
      aggregate_unnumbered [OF arr] by blast
  have k: "length (py_prefix ?m ?d) = min (length ?d) (nat ?m)"
    using limit by (simp add: py_prefix_nonneg)
  have rest: "map ev_n (drop (min (length ?d) (nat ?m)) ?d)
      = replicate (length ?d - min (length ?d) (nat ?m)) None"
  proof -
    have "\<forall>r \<in> set (drop (min (length ?d) (nat ?m)) ?d). ev_n r = None"
      using fresh by (auto dest: in_set_dropD)
    from unnumbered_indices [OF this] show ?thesis by simp
  qed
  have "map ev_n (web_results (executor cfg io state)) =
      map (\<lambda>i. Some (int i)) [1..<Suc (min (length ?d) (nat ?m))]
      @ replicate (length ?d - min (length ?d) (nat ?m)) None"
    unfolding executor_web_results number_sources_indices k rest ..
  moreover have "map (\<lambda>r. r\<lparr>ev_n := None\<rparr>) (web_results (executor cfg io state)) = ?d"
    unfolding executor_web_results number_sources_erase using fresh by (rule unnumbered_erase)
  ultimately show ?thesis by simp
qed

subsection \<open>Evaluation on the sample inputs\<close>

text \<open>
  Claim C3 at its failing input: the subqueries \<^verbatim>\<open>["s", "t"]\<close>, the search request for
  \<^verbatim>\<open>"s"\<close> failing with \<^verbatim>\<open>boom\<close>, the search for \<^verbatim>\<open>"t"\<close> returning one link that is fetched
  and summarised. \<^verbatim>\<open>search_with_google_cse\<close> catches the error and returns the empty list,
  so nothing is appended for \<^verbatim>\<open>"s"\<close>: the aggregate and \<^verbatim>\<open>state.web_results\<close> hold the
  record of \<^verbatim>\<open>"t"\<close> alone, and with \<^verbatim>\<open>"s"\<close> as the only subquery the result is empty. When
  the \<^verbatim>\<open>except\<close> clause of \<^verbatim>\<open>executor\<close> does run (the first worker thread cannot be
  started), the placeholder is appended to the aggregate with an empty link, and
  \<^verbatim>\<open>dedupe_by_link\<close> drops it.
\<close>

theorem executor_search_failure_leaves_no_placeholder:
  "aggregate default_config
     (\<lambda>i. if i = 0 then search_fails ''boom''
          else search_finds [item ''T'' ''http://a''] (\<lambda>j. page_ok '' found ''))
     [''s'', ''t'']
   = [(hit ''T'' ''http://a'')\<lparr>ev_summary := Some ''found''\<rparr>]
   \<and> web_results
       (executor default_config
          \<lparr>rag = Rag_failed ''down'',
           web = (\<lambda>i. if i = 0 then search_fails ''boom''
                      else search_finds [item ''T'' ''http://a''] (\<lambda>j. page_ok '' found ''))\<rparr>
          ((QueryState_init ''q'')\<lparr>subqueries := [''s'', ''t'']\<rparr>))
   = [(hit ''T'' ''http://a'')\<lparr>ev_summary := Some ''found'', ev_n := Some 1\<rparr>]
   \<and> web_results
       (executor default_config
          \<lparr>rag = Rag_failed ''down'', web = (\<lambda>i. search_fails ''boom'')\<rparr>
          ((QueryState_init ''q'')\<lparr>subqueries := [''s'']\<rparr>))
   = []
   \<and> aggregate default_config
       (\<lambda>i. thread_start_fails [item ''T'' ''http://a''] ''cannot start new thread'') [''s'']
   = [\<lparr>ev_title = Some ''s'', ev_link = Some [], ev_url = None, ev_snippet = None,
       ev_displayLink = None,
       ev_summary = Some ''Websearch error: cannot start new thread'', ev_n = None\<rparr>]
   \<and> web_results
       (executor default_config
          \<lparr>rag = Rag_failed ''down'',
           web = (\<lambda>i. thread_start_fails [item ''T'' ''http://a''] ''cannot start new thread'')\<rparr>
          ((QueryState_init ''q'')\<lparr>subqueries := [''s'']\<rparr>))
   = []"
  by (simp add: eval_defs)

text \<open>
  Claim C5 as stated fails for a negative limit: with
  \<open>MAX_SOURCES_FOR_CITATIONS = -1\<close> and three deduplicated records the slice
  \<^verbatim>\<open>state.web_results[:-1]\<close> holds two records, which get the numbers 1 and 2, while
  the smaller of the length and the limit is \<open>-1\<close>.
\<close>

theorem executor_citation_indices_counterexample:
  "length (dedupe_by_link (aggregate (default_config\<lparr>MAX_SOURCES_FOR_CITATIONS := - 1\<rparr>)
       (\<lambda>i. search_finds [item ''A'' ''http://a'', item ''B'' ''http://b'', item ''C'' ''http://c'']
                          (\<lambda>j. page_ok ''s''))
       [''s''])) = 3
   \<and> min (int (length (dedupe_by_link
           (aggregate (default_config\<lparr>MAX_SOURCES_FOR_CITATIONS := - 1\<rparr>)
              (\<lambda>i. search_finds
                     [item ''A'' ''http://a'', item ''B'' ''http://b'', item ''C'' ''http://c'']
                     (\<lambda>j. page_ok ''s''))
              [''s'']))))
         (MAX_SOURCES_FOR_CITATIONS (default_config\<lparr>MAX_SOURCES_FOR_CITATIONS := - 1\<rparr>))
       = - 1
   \<and> map ev_n (web_results
       (executor (default_config\<lparr>MAX_SOURCES_FOR_CITATIONS := - 1\<rparr>)
          \<lparr>rag = Rag_failed ''down'',
           web = (\<lambda>i. search_finds
                        [item ''A'' ''http://a'', item ''B'' ''http://b'', item ''C'' ''http://c'']
                        (\<lambda>j. page_ok ''s''))\<rparr>
          ((QueryState_init ''q'')\<lparr>subqueries := [''s'']\<rparr>)))
       = [Some 1, Some 2, None]"
  by (simp add: eval_defs)

theorem executor_citation_indices_witness:
  "map ev_n (web_results
       (executor default_config
          \<lparr>rag = Rag_failed ''down'',
           web = (\<lambda>i. search_finds [item ''A'' ''http://a'', item ''B'' ''http://b'',
                                    item ''A2'' ''http://a '']
                                   (\<lambda>j. if j = 1 then page_unreachable else page_ok ''s''))\<rparr>
          ((QueryState_init ''q'')\<lparr>subqueries := [''s'', ''t'']\<rparr>)))
     = [Some 1, Some 2]
   \<and> map ev_n (web_results
       (executor (default_config\<lparr>MAX_SOURCES_FOR_CITATIONS := 1\<rparr>)
          \<lparr>rag = Rag_failed ''down'',
           web = (\<lambda>i. search_finds [item ''A'' ''http://a'', item ''B'' ''http://b'',
                                    item ''A2'' ''http://a '']
                                   (\<lambda>j. if j = 1 then page_unreachable else page_ok ''s''))\<rparr>
          ((QueryState_init ''q'')\<lparr>subqueries := [''s'', ''t'']\<rparr>)))
     = [Some 1, None]"
  using executor_citation_indices_dense
    [of default_config
        "\<lparr>rag = Rag_failed ''down'',
           web = (\<lambda>i. search_finds [item ''A'' ''http://a'', item ''B'' ''http://b'',
                                    item ''A2'' ''http://a '']
                                   (\<lambda>j. if j = 1 then page_unreachable else page_ok ''s''))\<rparr>"
        "(QueryState_init ''q'')\<lparr>subqueries := [''s'', ''t'']\<rparr>"]
    executor_citation_indices_dense
    [of "default_config\<lparr>MAX_SOURCES_FOR_CITATIONS := 1\<rparr>"
        "\<lparr>rag = Rag_failed ''down'',
           web = (\<lambda>i. search_finds [item ''A'' ''http://a'', item ''B'' ''http://b'',
                                    item ''A2'' ''http://a '']
                                   (\<lambda>j. if j = 1 then page_unreachable else page_ok ''s''))\<rparr>"
        "(QueryState_init ''q'')\<lparr>subqueries := [''s'', ''t'']\<rparr>"]
  by (simp add: eval_defs)

subsection \<open>Records enqueued per link\<close>

lemma concat_distinct_member: "distinct (concat xss) \<Longrightarrow> xs \<in> set xss \<Longrightarrow> distinct xs"
  by (induction xss) auto

lemma run_subquery_not_distinct:
  assumes arr: "\<forall>xs. mset (arrival io xs) = mset xs"
    and j: "j < length (started_links cfg io)"
    and twice: "expand_and_summarize_web cfg (page_io io j) (started_links cfg io ! j) = [l, l]"
  shows "\<not> distinct (run_subquery cfg io subq)"
proof
  let ?f = "\<lambda>(i, l). expand_and_summarize_web cfg (page_io io i) l"
  let ?outs = "map ?f (enumerate 0 (started_links cfg io))"
  assume "distinct (run_subquery cfg io subq)"
  then have da: "distinct (arrival io (concat ?outs))"
    by (simp add: run_subquery_def Let_def)
  have "mset (arrival io (concat ?outs)) = mset (concat ?outs)" using arr by (rule spec)
  from mset_eq_imp_distinct_iff [OF this] da have d: "distinct (concat ?outs)" by (rule iffD1)
  from j have "(j, started_links cfg io ! j) \<in> set (enumerate 0 (started_links cfg io))"
    by (simp add: in_set_enumerate_eq)
  then have "?f (j, started_links cfg io ! j) \<in> ?f ` set (enumerate 0 (started_links cfg io))"
    by (rule imageI)
  then have "[l, l] \<in> set ?outs" using twice by simp
  with d have "distinct [l, l]" by (rule concat_distinct_member)
  then show False by simp
qed

lemma aggregate_not_distinct:
  assumes arr: "\<forall>xs. mset (arrival (env i) xs) = mset xs"
    and i: "i < length subqs"
    and j: "j < length (started_links cfg (env i))"
    and twice: "expand_and_summarize_web cfg (page_io (env i) j) (started_links cfg (env i) ! j)
                  = [l, l]"
  shows "\<not> distinct (aggregate cfg env subqs)"
proof
  let ?f = "\<lambda>(i, subq). run_subquery cfg (env i) subq"
  let ?runs = "map ?f (enumerate 0 subqs)"
  assume "distinct (aggregate cfg env subqs)"
  then have d: "distinct (concat ?runs)" by (simp add: aggregate_def)
  from i have "(i, subqs ! i) \<in> set (enumerate 0 subqs)" by (simp add: in_set_enumerate_eq)
  then have "?f (i, subqs ! i) \<in> ?f ` set (enumerate 0 subqs)" by (rule imageI)
  then have "run_subquery cfg (env i) (subqs ! i) \<in> set ?runs" by simp
  with d have "distinct (run_subquery cfg (env i) (subqs ! i))" by (rule concat_distinct_member)
  with run_subquery_not_distinct [OF arr j twice] show False by simp
qed

text \<open>
  Claim C10. \<^verbatim>\<open>expand_and_summarize_web\<close> always enqueues at least one record. When no
  unexpected exception occurs and the URL is empty or filtered, or the fetch returns None,
  or a PDF is detected, it enqueues one record twice (the early \<^verbatim>\<open>queue.put\<close> and the one
  of \<^verbatim>\<open>finally\<close>); on the summarisation path, whether the summary succeeds or fails, and
  on the outermost handler's path it enqueues one record once. Hence, when a started link
  of some subquery takes an early return, the aggregate before deduplication holds a
  record twice.
\<close>

theorem expand_and_summarize_web_enqueues:
  "expand_and_summarize_web cfg io link \<noteq> []
   \<and> (unexpected io = None
        \<and> (or_empty (py_or (ev_link link) (ev_url link)) = []
           \<or> \<not> is_allowed_url cfg (or_empty (py_or (ev_link link) (ev_url link)))
           \<or> fetch_url io = No_response
           \<or> (\<exists>ctype. fetch_url io = Response ctype
                \<and> is_probably_pdf (or_empty (py_or (ev_link link) (ev_url link))) (Some ctype)))
      \<longrightarrow> (\<exists>l. expand_and_summarize_web cfg io link = [l, l]))
   \<and> (unexpected io = None
        \<and> or_empty (py_or (ev_link link) (ev_url link)) \<noteq> []
        \<and> is_allowed_url cfg (or_empty (py_or (ev_link link) (ev_url link)))
        \<and> (\<exists>ctype. fetch_url io = Response ctype
              \<and> \<not> is_probably_pdf (or_empty (py_or (ev_link link) (ev_url link))) (Some ctype))
      \<longrightarrow> (\<exists>l. expand_and_summarize_web cfg io link = [l]))
   \<and> (unexpected io \<noteq> None \<longrightarrow> (\<exists>l. expand_and_summarize_web cfg io link = [l]))
   \<and> ((\<forall>xs. mset (arrival (env i) xs) = mset xs)
        \<and> i < length subqs \<and> j < length (started_links cfg (env i))
        \<and> (\<exists>l. expand_and_summarize_web cfg (page_io (env i) j) (started_links cfg (env i) ! j)
                  = [l, l])
      \<longrightarrow> \<not> distinct (aggregate cfg env subqs))"
proof (intro conjI impI)
  show "expand_and_summarize_web cfg io link \<noteq> []"
    by (simp add: expand_and_summarize_web_def Let_def
        split: option.splits fetched.splits sum.splits)
next
  assume "unexpected io = None
        \<and> (or_empty (py_or (ev_link link) (ev_url link)) = []
           \<or> \<not> is_allowed_url cfg (or_empty (py_or (ev_link link) (ev_url link)))
           \<or> fetch_url io = No_response
           \<or> (\<exists>ctype. fetch_url io = Response ctype
                \<and> is_probably_pdf (or_empty (py_or (ev_link link) (ev_url link))) (Some ctype)))"
  then show "\<exists>l. expand_and_summarize_web cfg io link = [l, l]"
    by (auto simp: expand_and_summarize_web_def Let_def split: fetched.splits)
next
  assume "unexpected io = None
        \<and> or_empty (py_or (ev_link link) (ev_url link)) \<noteq> []
        \<and> is_allowed_url cfg (or_empty (py_or (ev_link link) (ev_url link)))
        \<and> (\<exists>ctype. fetch_url io = Response ctype
              \<and> \<not> is_probably_pdf (or_empty (py_or (ev_link link) (ev_url link))) (Some ctype))"
  then show "\<exists>l. expand_and_summarize_web cfg io link = [l]"
    by (auto simp: expand_and_summarize_web_def Let_def split: sum.splits)
next
  assume "unexpected io \<noteq> None"
  then show "\<exists>l. expand_and_summarize_web cfg io link = [l]"
    by (auto simp: expand_and_summarize_web_def)
next
  assume a: "(\<forall>xs. mset (arrival (env i) xs) = mset xs)
        \<and> i < length subqs \<and> j < length (started_links cfg (env i))
        \<and> (\<exists>l. expand_and_summarize_web cfg (page_io (env i) j) (started_links cfg (env i) ! j)
                  = [l, l])"
  then obtain l where
    "expand_and_summarize_web cfg (page_io (env i) j) (started_links cfg (env i) ! j) = [l, l]"
    by blast
  with a show "\<not> distinct (aggregate cfg env subqs)"
    using aggregate_not_distinct [of env i subqs j cfg l] by blast
qed

theorem expand_and_summarize_web_enqueues_witness:
  "expand_and_summarize_web default_config page_unreachable (hit ''T'' ''http://a'')
     = [(hit ''T'' ''http://a'')\<lparr>ev_summary := Some ''Failed to fetch page.''\<rparr>,
        (hit ''T'' ''http://a'')\<lparr>ev_summary := Some ''Failed to fetch page.''\<rparr>]
   \<and> expand_and_summarize_web default_config (page_ok ''s'') (hit ''T'' ''http://a'')
     = [(hit ''T'' ''http://a'')\<lparr>ev_summary := Some ''s''\<rparr>]
   \<and> \<not> distinct (aggregate default_config
                    (\<lambda>i. search_finds [item ''T'' ''http://a''] (\<lambda>j. page_unreachable)) [''q''])"
  using expand_and_summarize_web_enqueues
    [of default_config page_unreachable "hit ''T'' ''http://a''"
        "\<lambda>i. search_finds [item ''T'' ''http://a''] (\<lambda>j. page_unreachable)" 0 "[''q'']" 0]
    expand_and_summarize_web_enqueues
    [of default_config "page_ok ''s''" "hit ''T'' ''http://a''"
        "\<lambda>i. search_finds [item ''T'' ''http://a''] (\<lambda>j. page_unreachable)" 0 "[''q'']" 0]
  by (simp add: eval_defs)

section \<open>Properties of the workflow\<close>

text \<open>The loop equation is unfolded by hand, one pass at a time.\<close>

declare workflow_loop.simps [simp del]

subsection \<open>What each stage leaves alone\<close>

lemma planner_attempts_keeps:
  "loop_count (planner_attempts g as s) = loop_count s"
  "scores (planner_attempts g as s) = scores s"
  "evaluation (planner_attempts g as s) = evaluation s"
  by (induction as arbitrary: s; auto simp: Let_def split: completion.splits)+

lemma planner_keeps:
  "loop_count (planner g s) = loop_count s"
  "scores (planner g s) = scores s"
  "evaluation (planner g s) = evaluation s"
  by (simp_all only: planner_def planner_attempts_keeps)

lemma summarizer_keeps:
  "loop_count (structured_summarizer g s) = loop_count s"
  "scores (structured_summarizer g s) = scores s"
  "evaluation (structured_summarizer g s) = evaluation s"
  by (simp_all add: structured_summarizer_def split: sum.splits)

lemma executor_keeps:
  "loop_count (executor cfg e s) = loop_count s"
  "scores (executor cfg e s) = scores s"
  "evaluation (executor cfg e s) = evaluation s"
  by (simp_all add: executor_def Let_def split: rag_response.splits)

lemma answer_subquestions_keeps:
  "loop_count (answer_subquestions g s) = loop_count s"
  "scores (answer_subquestions g s) = scores s"
  "evaluation (answer_subquestions g s) = evaluation s"
  by (simp_all add: answer_subquestions_def)

lemma synthesizer_keeps:
  "loop_count (synthesizer g s) = loop_count s"
  "scores (synthesizer g s) = scores s"
  "evaluation (synthesizer g s) = evaluation s"
  by (simp_all add: synthesizer_def split: sum.splits)

lemma evaluator_loop_count: "loop_count (evaluator cfg g s) = loop_count s + 1"
  by (simp add: evaluator_def Let_def split: sum.splits)

lemma run_pass_loop_count: "loop_count (run_pass cfg io s) = loop_count s + 1"
  by (simp only: run_pass_def evaluator_loop_count synthesizer_keeps answer_subquestions_keeps
      executor_keeps planner_keeps)

subsection \<open>The loop\<close>

lemma replan_below_cap: "should_replan cfg s = ''replan'' \<Longrightarrow> loop_count s < MAX_LOOPS cfg"
  by (simp add: should_replan_def split: if_splits)

text \<open>
  From any state, the loop returns at least one state; the \<open>k\<close>-th state it returns has
  seen \<open>k + 1\<close> more evaluations than the start; and below the cap it returns at most
  \<open>MAX_LOOPS - loop_count\<close> states.
\<close>

lemma workflow_loop_trace:
  "workflow_loop cfg io i s \<noteq> []
   \<and> (loop_count s < MAX_LOOPS cfg \<longrightarrow>
        int (length (workflow_loop cfg io i s)) \<le> MAX_LOOPS cfg - loop_count s)
   \<and> (\<forall>k < length (workflow_loop cfg io i s).
        loop_count (workflow_loop cfg io i s ! k) = loop_count s + int k + 1)"
proof (induction cfg io i s rule: workflow_loop.induct)
  case (1 cfg io i state)
  let ?s' = "run_pass cfg (io i) state"
  have lc: "loop_count ?s' = loop_count state + 1" by (rule run_pass_loop_count)
  show ?case
  proof (cases "should_replan cfg ?s' = ''replan''")
    case True
    then have unfold: "workflow_loop cfg io i state = ?s' # workflow_loop cfg io (Suc i) ?s'"
      by (subst workflow_loop.simps) (simp add: Let_def)
    from True have below: "loop_count ?s' < MAX_LOOPS cfg" by (rule replan_below_cap)
    note IH = "1.IH" [OF refl True]
    from IH below have len: "int (length (workflow_loop cfg io (Suc i) ?s')) \<le> MAX_LOOPS cfg - loop_count ?s'"
      by simp
    have nth: "loop_count ((?s' # workflow_loop cfg io (Suc i) ?s') ! k) = loop_count state + int k + 1"
      if "k < Suc (length (workflow_loop cfg io (Suc i) ?s'))" for k
    proof (cases k)
      case 0
      then show ?thesis by (simp add: lc)
    next
      case (Suc k')
      with that have "k' < length (workflow_loop cfg io (Suc i) ?s')" by simp
      with IH have "loop_count (workflow_loop cfg io (Suc i) ?s' ! k') = loop_count ?s' + int k' + 1"
        by blast
      then show ?thesis using Suc by (simp add: lc)
    qed
    show ?thesis unfolding unfold using len nth lc by auto
  next
    case False
    then have unfold: "workflow_loop cfg io i state = [?s']"
      by (subst workflow_loop.simps) (simp add: Let_def)
    show ?thesis unfolding unfold using lc by auto
  qed
qed

text \<open>The defining equations by which sample runs are evaluated.\<close>

lemmas run_defs = run_workflow_def run_pass_def structured_summarizer_def planner_def
  answer_subquestions_def synthesizer_def evaluator_def should_replan_def text_of_def
  parse_subqueries_def splitlines_def strip_chars_def is_linebreak_def get_concise_summary_def
  failing_pass_def scoring_pass_def rubric_with_def

subsection \<open>Comparisons of floats\<close>

lemma float_lt_not_ge: "float_lt a b \<Longrightarrow> \<not> float_ge a b"
  by (cases a; cases b) auto

lemma float_not_lt_iff_ge: "a \<noteq> NaN \<Longrightarrow> b \<noteq> NaN \<Longrightarrow> (\<not> float_lt a b) = float_ge a b"
  by (cases a; cases b) auto

subsection \<open>The conditional edge and the evaluator\<close>

text \<open>
  Claim C1, as amended. On a state whose \<open>scores\<close> are set (as they are after
  \<^verbatim>\<open>evaluator\<close>), \<^verbatim>\<open>should_replan\<close> returns \<^verbatim>\<open>"end"\<close> whenever \<open>loop_count \<ge> MAX_LOOPS\<close>,
  whatever the score; below the cap it returns \<^verbatim>\<open>"replan"\<close> exactly when
  \<open>overall < MIN_OVERALL\<close> and \<^verbatim>\<open>"end"\<close> exactly when \<open>overall < MIN_OVERALL\<close> does not hold,
  which is \<open>overall \<ge> MIN_OVERALL\<close> when neither value is NaN.
\<close>

theorem should_replan_decision:
  assumes "scores state = Some r"
  shows "(MAX_LOOPS cfg \<le> loop_count state \<longrightarrow> should_replan cfg state = ''end'')
       \<and> (loop_count state < MAX_LOOPS cfg \<longrightarrow>
            (should_replan cfg state = ''replan'' \<longleftrightarrow> float_lt (overall r) (MIN_OVERALL cfg))
          \<and> (should_replan cfg state = ''end'' \<longleftrightarrow> \<not> float_lt (overall r) (MIN_OVERALL cfg))
          \<and> (overall r \<noteq> NaN \<and> MIN_OVERALL cfg \<noteq> NaN \<longrightarrow>
                (should_replan cfg state = ''end''
                   \<longleftrightarrow> float_ge (overall r) (MIN_OVERALL cfg))))"
proof (intro conjI impI)
  assume "MAX_LOOPS cfg \<le> loop_count state"
  then show "should_replan cfg state = ''end''" by (simp add: should_replan_def)
next
  assume below: "loop_count state < MAX_LOOPS cfg"
  from below assms
  show replan: "should_replan cfg state = ''replan'' \<longleftrightarrow> float_lt (overall r) (MIN_OVERALL cfg)"
    by (simp add: should_replan_def)
  from below assms
  show "should_replan cfg state = ''end'' \<longleftrightarrow> \<not> float_lt (overall r) (MIN_OVERALL cfg)"
    by (simp add: should_replan_def)
next
  assume below: "loop_count state < MAX_LOOPS cfg"
    and "overall r \<noteq> NaN \<and> MIN_OVERALL cfg \<noteq> NaN"
  then have "(\<not> float_lt (overall r) (MIN_OVERALL cfg)) = float_ge (overall r) (MIN_OVERALL cfg)"
    by (simp add: float_not_lt_iff_ge)
  with below assms
  show "should_replan cfg state = ''end'' \<longleftrightarrow> float_ge (overall r) (MIN_OVERALL cfg)"
    by (auto simp: should_replan_def)
qed

theorem should_replan_decision_witness:
  "should_replan default_config
     (evaluator default_config (\<lambda>attempt. Inr (rubric_with (Finite (1 / 2)) ''thin''))
        (QueryState_init ''q''))
     = ''replan''
   \<and> should_replan default_config
     (evaluator default_config (\<lambda>attempt. Inr (rubric_with (Finite (9 / 10)) ''good''))
        (QueryState_init ''q''))
     = ''end''
   \<and> should_replan default_config
     (evaluator default_config (\<lambda>attempt. Inr (rubric_with (Finite (1 / 2)) ''thin''))
        ((QueryState_init ''q'')\<lparr>loop_count := 2\<rparr>))
     = ''end''"
  using should_replan_decision
    [of "evaluator default_config (\<lambda>attempt. Inr (rubric_with (Finite (1 / 2)) ''thin''))
           (QueryState_init ''q'')"
        "\<lparr>coverage = Finite 1, grounding = Finite 1, coherence = Finite 1,
          overall = Finite (1 / 2), replan_needed = False, critique = ''thin''\<rparr>" default_config]
    should_replan_decision
    [of "evaluator default_config (\<lambda>attempt. Inr (rubric_with (Finite (9 / 10)) ''good''))
           (QueryState_init ''q'')"
        "\<lparr>coverage = Finite 1, grounding = Finite 1, coherence = Finite 1,
          overall = Finite (9 / 10), replan_needed = False, critique = ''good''\<rparr>" default_config]
    should_replan_decision
    [of "evaluator default_config (\<lambda>attempt. Inr (rubric_with (Finite (1 / 2)) ''thin''))
           ((QueryState_init ''q'')\<lparr>loop_count := 2\<rparr>)"
        "\<lparr>coverage = Finite 1, grounding = Finite 1, coherence = Finite 1,
          overall = Finite (1 / 2), replan_needed = False, critique = ''thin''\<rparr>" default_config]
  by (simp add: evaluator_def gemini_retry_def rubric_with_def get_or_def str_or_def
      default_config_def QueryState_init_def Let_def)

text \<open>
  Claim C1 as stated fails when the rubric's \<open>overall\<close> is NaN, which \<^verbatim>\<open>json.loads\<close> and
  \<^verbatim>\<open>float\<close> let through: after the first \<^verbatim>\<open>evaluator\<close> pass \<open>loop_count\<close> is 1, below the cap
  of 3, \<open>overall \<ge> MIN_OVERALL\<close> is false (and \<open>evaluation\<close> is \<^verbatim>\<open>"no"\<close>), and yet
  \<^verbatim>\<open>should_replan\<close> returns \<^verbatim>\<open>"end"\<close>, since \<open>overall < MIN_OVERALL\<close> is false as well.
\<close>

theorem should_replan_nan_counterexample:
  "loop_count (evaluator default_config (\<lambda>attempt. Inr (rubric_with NaN ''thin''))
        (QueryState_init ''q'')) < MAX_LOOPS default_config
   \<and> scores (evaluator default_config (\<lambda>attempt. Inr (rubric_with NaN ''thin''))
        (QueryState_init ''q''))
       = Some \<lparr>coverage = Finite 1, grounding = Finite 1, coherence = Finite 1, overall = NaN,
               replan_needed = False, critique = ''thin''\<rparr>
   \<and> \<not> float_ge NaN (MIN_OVERALL default_config)
   \<and> evaluation (evaluator default_config (\<lambda>attempt. Inr (rubric_with NaN ''thin''))
        (QueryState_init ''q'')) = ''no''
   \<and> should_replan default_config
        (evaluator default_config (\<lambda>attempt. Inr (rubric_with NaN ''thin''))
           (QueryState_init ''q'')) = ''end''"
  by (simp add: evaluator_def should_replan_def gemini_retry_def rubric_with_def get_or_def
      str_or_def default_config_def QueryState_init_def Let_def)

text \<open>
  Claim C4. \<^verbatim>\<open>evaluator\<close> adds 1 to \<open>loop_count\<close> on every path, and always leaves \<open>scores\<close>
  set and \<open>evaluation\<close> non-empty. When the retried call gives up with error \<open>e\<close>, the
  rubric is all zero with \<open>replan_needed\<close> true and the critique \<^verbatim>\<open>Evaluation failed: e\<close>,
  \<open>evaluation\<close> is \<^verbatim>\<open>"no"\<close>, \<open>feedback\<close> is that critique and \<open>bad_subqueries\<close> the current
  subqueries. When it yields a rubric: with \<open>overall \<ge> MIN_OVERALL\<close>, \<open>evaluation\<close> is
  \<^verbatim>\<open>"yes"\<close> and \<open>feedback\<close> and \<open>bad_subqueries\<close> are cleared; with \<open>overall < MIN_OVERALL\<close>
  (and whenever \<open>overall \<ge> MIN_OVERALL\<close> does not hold), \<open>evaluation\<close> is \<^verbatim>\<open>"no"\<close>, \<open>feedback\<close>
  the critique or, when that is empty, \<^verbatim>\<open>Needs improvement\<close>, and \<open>bad_subqueries\<close> the
  current subqueries. A fresh state has an empty \<open>evaluation\<close>, and no other stage writes
  \<open>evaluation\<close> or \<open>scores\<close>: if \<open>scores\<close> is set whenever \<open>evaluation\<close> is non-empty before a
  stage, so it is after it.
\<close>

theorem evaluator_outcomes:
  "loop_count (evaluator cfg gemini_json state) = loop_count state + 1
   \<and> scores (evaluator cfg gemini_json state) \<noteq> None
   \<and> evaluation (evaluator cfg gemini_json state) \<noteq> []
   \<and> (gemini_retry gemini_json = Inl e \<longrightarrow>
         scores (evaluator cfg gemini_json state)
           = Some \<lparr>coverage = Finite 0, grounding = Finite 0, coherence = Finite 0,
                   overall = Finite 0, replan_needed = True,
                   critique = ''Evaluation failed: '' @ e\<rparr>
       \<and> evaluation (evaluator cfg gemini_json state) = ''no''
       \<and> feedback (evaluator cfg gemini_json state) = ''Evaluation failed: '' @ e
       \<and> bad_subqueries (evaluator cfg gemini_json state) = subqueries state)
   \<and> (gemini_retry gemini_json = Inr data \<longrightarrow>
         (\<exists>r. scores (evaluator cfg gemini_json state) = Some r
             \<and> overall r = get_or (j_overall data) (Finite 0)
             \<and> critique r = get_or (j_critique data) [])
       \<and> (float_ge (get_or (j_overall data) (Finite 0)) (MIN_OVERALL cfg) \<longrightarrow>
             evaluation (evaluator cfg gemini_json state) = ''yes''
           \<and> feedback (evaluator cfg gemini_json state) = []
           \<and> bad_subqueries (evaluator cfg gemini_json state) = [])
       \<and> (float_lt (get_or (j_overall data) (Finite 0)) (MIN_OVERALL cfg)
            \<or> \<not> float_ge (get_or (j_overall data) (Finite 0)) (MIN_OVERALL cfg) \<longrightarrow>
             evaluation (evaluator cfg gemini_json state) = ''no''
           \<and> feedback (evaluator cfg gemini_json state)
               = (if get_or (j_critique data) [] \<noteq> [] then get_or (j_critique data) []
                  else ''Needs improvement'')
           \<and> bad_subqueries (evaluator cfg gemini_json state) = subqueries state))
   \<and> evaluation (QueryState_init q) = []
   \<and> ((evaluation state \<noteq> [] \<longrightarrow> scores state \<noteq> None) \<longrightarrow>
         (evaluation (structured_summarizer g state) \<noteq> []
            \<longrightarrow> scores (structured_summarizer g state) \<noteq> None)
       \<and> (evaluation (planner g state) \<noteq> [] \<longrightarrow> scores (planner g state) \<noteq> None)
       \<and> (evaluation (executor cfg x state) \<noteq> [] \<longrightarrow> scores (executor cfg x state) \<noteq> None)
       \<and> (evaluation (answer_subquestions a state) \<noteq> []
            \<longrightarrow> scores (answer_subquestions a state) \<noteq> None)
       \<and> (evaluation (synthesizer g state) \<noteq> [] \<longrightarrow> scores (synthesizer g state) \<noteq> None))"
proof -
  have stages: "evaluation (QueryState_init q) = []
   \<and> ((evaluation state \<noteq> [] \<longrightarrow> scores state \<noteq> None) \<longrightarrow>
         (evaluation (structured_summarizer g state) \<noteq> []
            \<longrightarrow> scores (structured_summarizer g state) \<noteq> None)
       \<and> (evaluation (planner g state) \<noteq> [] \<longrightarrow> scores (planner g state) \<noteq> None)
       \<and> (evaluation (executor cfg x state) \<noteq> [] \<longrightarrow> scores (executor cfg x state) \<noteq> None)
       \<and> (evaluation (answer_subquestions a state) \<noteq> []
            \<longrightarrow> scores (answer_subquestions a state) \<noteq> None)
       \<and> (evaluation (synthesizer g state) \<noteq> [] \<longrightarrow> scores (synthesizer g state) \<noteq> None))"
    by (simp add: QueryState_init_def summarizer_keeps planner_keeps executor_keeps
        answer_subquestions_keeps synthesizer_keeps)
  have lt: "float_lt (get_or (j_overall data) (Finite 0)) (MIN_OVERALL cfg)
      \<or> \<not> float_ge (get_or (j_overall data) (Finite 0)) (MIN_OVERALL cfg)
    \<longleftrightarrow> \<not> float_ge (get_or (j_overall data) (Finite 0)) (MIN_OVERALL cfg)"
    using float_lt_not_ge by blast
  show ?thesis
    unfolding lt
    by (rule conjI [OF _ conjI [OF _ conjI [OF _ conjI [OF _ conjI [OF _ stages]]]]];
        cases "gemini_retry gemini_json"; simp add: evaluator_def Let_def str_or_def)
qed

theorem evaluator_outcomes_witness:
  "loop_count (evaluator default_config (\<lambda>attempt. Inl ''500'')
        ((QueryState_init ''q'')\<lparr>subqueries := [''a'']\<rparr>)) = 1
   \<and> overall (the (scores (evaluator default_config (\<lambda>attempt. Inl ''500'')
        ((QueryState_init ''q'')\<lparr>subqueries := [''a'']\<rparr>)))) = Finite 0
   \<and> feedback (evaluator default_config (\<lambda>attempt. Inl ''500'')
        ((QueryState_init ''q'')\<lparr>subqueries := [''a'']\<rparr>)) = ''Evaluation failed: 500''
   \<and> evaluation (evaluator default_config (\<lambda>attempt. Inr (rubric_with (Finite (9 / 10)) ''good''))
        ((QueryState_init ''q'')\<lparr>subqueries := [''a'']\<rparr>)) = ''yes''
   \<and> bad_subqueries (evaluator default_config (\<lambda>attempt. Inr (rubric_with (Finite (1 / 2)) []))
        ((QueryState_init ''q'')\<lparr>subqueries := [''a'']\<rparr>)) = [''a'']
   \<and> feedback (evaluator default_config (\<lambda>attempt. Inr (rubric_with (Finite (1 / 2)) []))
        ((QueryState_init ''q'')\<lparr>subqueries := [''a'']\<rparr>)) = ''Needs improvement''"
  using evaluator_outcomes
    [of default_config "\<lambda>attempt. Inl ''500''" "(QueryState_init ''q'')\<lparr>subqueries := [''a'']\<rparr>"
        "''500''" "rubric_with (Finite 0) []"]
    evaluator_outcomes
    [of default_config "\<lambda>attempt. Inr (rubric_with (Finite (9 / 10)) ''good'')"
        "(QueryState_init ''q'')\<lparr>subqueries := [''a'']\<rparr>" "''500''"
        "rubric_with (Finite (9 / 10)) ''good''"]
    evaluator_outcomes
    [of default_config "\<lambda>attempt. Inr (rubric_with (Finite (1 / 2)) [])"
        "(QueryState_init ''q'')\<lparr>subqueries := [''a'']\<rparr>" "''500''"
        "rubric_with (Finite (1 / 2)) []"]
  by (simp add: gemini_retry_def rate_limited_def sublist_code prefix_code rubric_with_def
      get_or_def default_config_def QueryState_init_def)

text \<open>
  Claim C2. With \<open>MAX_LOOPS \<ge> 1\<close>, a run on a question (the state starts with
  \<open>loop_count = 0\<close>, and the summarizer leaves it so) makes at least one and at most
  \<open>MAX_LOOPS\<close> \<^verbatim>\<open>evaluator\<close> passes; after the \<open>k\<close>-th pass \<open>loop_count\<close> is \<open>k\<close>; at the end
  it is at most \<open>MAX_LOOPS\<close>. \<^verbatim>\<open>evaluator\<close> adds exactly 1 and no other stage changes
  \<open>loop_count\<close>. That the run ends at all is the termination of \<open>workflow_loop\<close>, proved
  with its definition for every configuration and environment.
\<close>

theorem workflow_terminates_within_max_loops:
  assumes "1 \<le> MAX_LOOPS cfg"
  shows "run_workflow cfg sum_io io q \<noteq> []
       \<and> int (length (run_workflow cfg sum_io io q)) \<le> MAX_LOOPS cfg
       \<and> (\<forall>k < length (run_workflow cfg sum_io io q).
            loop_count (run_workflow cfg sum_io io q ! k) = int k + 1)
       \<and> loop_count (last (run_workflow cfg sum_io io q)) \<le> MAX_LOOPS cfg
       \<and> loop_count (structured_summarizer sum_io (QueryState_init q)) = 0
       \<and> (\<forall>p state. loop_count (planner (plan_io p) state) = loop_count state
            \<and> loop_count (executor cfg (exec_io p) state) = loop_count state
            \<and> loop_count (answer_subquestions (answer_io p) state) = loop_count state
            \<and> loop_count (synthesizer (synth_io p) state) = loop_count state
            \<and> loop_count (evaluator cfg (eval_io p) state) = loop_count state + 1)"
proof -
  let ?s0 = "structured_summarizer sum_io (QueryState_init q)"
  let ?tr = "run_workflow cfg sum_io io q"
  have s0: "loop_count ?s0 = 0" by (simp add: summarizer_keeps QueryState_init_def)
  have tr: "?tr = workflow_loop cfg io 0 ?s0" by (simp add: run_workflow_def)
  from workflow_loop_trace [of cfg io 0 ?s0] assms
  have ne: "?tr \<noteq> []"
    and len: "int (length ?tr) \<le> MAX_LOOPS cfg"
    and nth: "\<forall>k < length ?tr. loop_count (?tr ! k) = int k + 1"
    by (simp_all add: tr s0)
  from ne have "last ?tr = ?tr ! (length ?tr - 1)" by (rule last_conv_nth)
  moreover from ne have "length ?tr - 1 < length ?tr" by simp
  ultimately have "loop_count (last ?tr) = int (length ?tr - 1) + 1" using nth by simp
  also have "\<dots> = int (length ?tr)" using ne by (cases ?tr) simp_all
  finally have lst: "loop_count (last ?tr) \<le> MAX_LOOPS cfg" using len by simp
  from ne len nth lst s0 show ?thesis
    by (simp add: planner_keeps executor_keeps answer_subquestions_keeps synthesizer_keeps
        evaluator_loop_count)
qed

theorem workflow_terminates_witness:
  "map loop_count (run_workflow default_config (\<lambda>attempt. Call_error ''500'') (\<lambda>i. failing_pass) ''q'')
     = [1, 2, 3]
   \<and> map evaluation (run_workflow default_config (\<lambda>attempt. Call_error ''500'') (\<lambda>i. failing_pass) ''q'')
     = [''no'', ''no'', ''no'']
   \<and> int (length (run_workflow default_config (\<lambda>attempt. Call_error ''500'') (\<lambda>i. failing_pass) ''q''))
     \<le> 3
   \<and> map loop_count (run_workflow default_config (\<lambda>attempt. Text (Some ''s''))
         (\<lambda>i. if i = 0 then scoring_pass (Finite (1 / 2)) else scoring_pass (Finite (9 / 10)))
         ''q'')
     = [1, 2]"
  using workflow_terminates_within_max_loops
    [of default_config "\<lambda>attempt. Call_error ''500''" "\<lambda>i. failing_pass" "''q''"]
  by (simp add: workflow_loop.simps run_defs eval_defs)

end
